theory Spec2Isabelle
  imports Complex_Main "HOL-Library.Sublist"
begin

section \<open>Data model of \<open>backends/webgl/gpgpu_math.ts\<close>\<close>

text \<open>
  Handles of the rendering API are opaque; they are modelled as natural numbers.
  Shape entries are JavaScript numbers that hold integers; they are modelled as \<open>int\<close>
  (the 32-bit conversion of \<open>new Int32Array(vals)\<close> in the integer uploads is not
  modelled: shapes and texture sizes are far below its range).
\<close>

type_synonym WebGLProgram = nat
type_synonym WebGLUniformLocation = nat
type_synonym WebGLTexture = nat

text \<open>\<open>TextureData.slice\<close>: only its \<open>flatOffset\<close> is read in this file.\<close>

record SliceInfo =
  flatOffset :: int

text \<open>The fields of \<open>TextureData\<close> (tex_util) that this file reads.\<close>

record TextureData =
  texture :: WebGLTexture
  texShape :: "int \<times> int"
  isPacked :: bool
  slice :: "SliceInfo option"

text \<open>
  Modelled from the spec: the declaration of \<open>TypedArray\<close> (types.ts) is not part of
  the sources at hand. The values of a uniform-backed operand are "a flat numeric value
  sequence"; the source tells a \<open>Float32Array\<close>, whose entries are float32 numbers, from
  the other kinds of typed array, which hold integers.
\<close>

datatype TypedArray = Float32Array "real list" | Int32Array "int list" | Uint8Array "int list"

text \<open>
  \<open>TensorData\<close>. The source tests \<open>texData != null\<close>, so the field is optional;
  \<open>uniformValues\<close> is declared optional.
\<close>

record TensorData =
  shape :: "int list"
  texData :: "TextureData option"
  isUniform :: bool
  uniformValues :: "TypedArray option"

text \<open>
  \<open>ShapeInfo\<close> (declared in shader_compiler). Its fields \<open>texShape\<close>, \<open>isUniform\<close>,
  \<open>isPacked\<close> and \<open>flatOffset\<close> carry the prefix \<open>info_\<close> here, since the same
  names are fields of the records above.
\<close>

record ShapeInfo =
  logicalShape :: "int list"
  info_texShape :: "(int \<times> int) option"
  info_isUniform :: bool
  info_isPacked :: bool
  info_flatOffset :: "int option"

record InputInfo =
  name :: "string option"
  shapeInfo :: ShapeInfo

text \<open>
  \<open>GPGPUProgram\<close>. \<open>constructorName\<close> stands for \<open>program.constructor.name\<close>, which
  \<open>makeShaderKey\<close> reads.
\<close>

record GPGPUProgram =
  constructorName :: string
  variableNames :: "string list"
  outputShape :: "int list"
  userCode :: string
  usesPackedTextures :: bool
  isPackShader :: bool

text \<open>
  \<open>GPGPUBinary\<close>. \<open>uniformLocations\<close> is an object indexed by name; an entry that is
  absent and an entry that holds \<open>null\<close> are both \<open>None\<close> (the source tests
  \<open>!= null\<close>, which does not tell them apart).
\<close>

record GPGPUBinary =
  webGLProgram :: WebGLProgram
  program :: GPGPUProgram
  uniformLocations :: "string \<Rightarrow> WebGLUniformLocation option"
  source :: string
  inShapeInfos :: "ShapeInfo list"
  outShapeInfo :: ShapeInfo
  infLoc :: "WebGLUniformLocation option"
  nanLoc :: "WebGLUniformLocation option"

subsection \<open>Errors\<close>

text \<open>
  The three \<open>throw Error(...)\<close> of \<open>validateBinaryAndProgram\<close> carry the data of
  their messages. \<open>TypeError\<close> is what JavaScript raises on a property read of
  \<open>null\<close> or \<open>undefined\<close>; \<open>CompileFailure\<close> is a rejected shader source and
  \<open>HookFailure\<close> an exception of the caller's setup hook.
\<close>

datatype mismatch =
    InputCount nat nat
  | LogicalShapes "int list" "int list"
  | TextureShapes "(int \<times> int) option" "(int \<times> int) option"

datatype error = ShapeMismatch mismatch | TypeError | CompileFailure | HookFailure

subsection \<open>Numbers that may be undefined\<close>

text \<open>
  An integer-valued JavaScript number, or \<open>NaN\<close> (what arithmetic on \<open>undefined\<close>
  gives), and the argument of a float upload.
\<close>

datatype i32 = I int | I_NaN

datatype f32 = F real | F_NaN | F_Infinity | F_undefined

text \<open>\<open>Math.ceil(x * 0.5)\<close> on an integer.\<close>

definition ceilHalf :: "int \<Rightarrow> int" where
  "ceilHalf x = \<lceil>real_of_int x * 0.5\<rceil>"

text \<open>\<open>xs[i]\<close>: \<open>undefined\<close> (here \<open>None\<close>) outside the array.\<close>

definition idx :: "'a list \<Rightarrow> int \<Rightarrow> 'a option" where
  "idx xs i = (if 0 \<le> i \<and> i < int (length xs) then Some (xs ! nat i) else None)"

text \<open>\<open>Math.ceil(v * 0.5)\<close> where \<open>v\<close> may be \<open>undefined\<close>.\<close>

definition ceilHalfOf :: "int option \<Rightarrow> i32" where
  "ceilHalfOf v = (case v of None \<Rightarrow> I_NaN | Some x \<Rightarrow> I (ceilHalf x))"

definition times :: "i32 \<Rightarrow> i32 \<Rightarrow> i32" where
  "times a b = (case (a, b) of (I x, I y) \<Rightarrow> I (x * y) | _ \<Rightarrow> I_NaN)"

text \<open>
  Storing an integer into a \<open>Float32Array\<close> rounds it to the nearest float32: 24
  significant bits are kept, a tie goes to the even one. \<open>excessBits n\<close> is the number
  of low bits that \<open>n\<close> has beyond 24.
\<close>

fun excessBits :: "nat \<Rightarrow> nat" where
  "excessBits n = (if n < 2 ^ 24 then 0 else Suc (excessBits (n div 2)))"

declare excessBits.simps [simp del]

definition froundNat :: "nat \<Rightarrow> nat" where
  "froundNat n =
     (let k = excessBits n; q = n div 2 ^ k; r = n mod 2 ^ k
      in if 2 ^ k < 2 * r \<or> (2 * r = 2 ^ k \<and> odd q) then (q + 1) * 2 ^ k else q * 2 ^ k)"

definition froundInt :: "int \<Rightarrow> int" where
  "froundInt i = (if i < 0 then - int (froundNat (nat (- i))) else int (froundNat (nat i)))"

text \<open>The entries of a typed array as numbers, and \<open>vals[0]\<close>.\<close>

definition elementsOf :: "TypedArray \<Rightarrow> real list" where
  "elementsOf vals =
     (case vals of
        Float32Array xs \<Rightarrow> xs
      | Int32Array ns \<Rightarrow> map real_of_int ns
      | Uint8Array ns \<Rightarrow> map real_of_int ns)"

definition firstValue :: "TypedArray \<Rightarrow> f32" where
  "firstValue vals = (case elementsOf vals of [] \<Rightarrow> F_undefined | v # _ \<Rightarrow> F v)"

text \<open>
  \<open>vals instanceof Float32Array ? vals : new Float32Array(vals)\<close>, where \<open>vals\<close> may
  be \<open>undefined\<close> (then the new array is empty).
\<close>

definition toFloat32Array :: "TypedArray option \<Rightarrow> real list" where
  "toFloat32Array vals =
     (case vals of
        None \<Rightarrow> []
      | Some (Float32Array xs) \<Rightarrow> xs
      | Some (Int32Array ns) \<Rightarrow> map (\<lambda>n. real_of_int (froundInt n)) ns
      | Some (Uint8Array ns) \<Rightarrow> map (\<lambda>n. real_of_int (froundInt n)) ns)"

subsection \<open>The GPU context\<close>

text \<open>
  Modelled from the spec: \<open>GPGPUContext\<close> (gpgpu_context.ts) is not part of the
  sources at hand. The spec lists the operations this file consumes; the context is
  modelled as the sequence of operations issued on it, oldest first.
\<close>

datatype gl_call =
    CreateProgram string
  | GetUniformLocation WebGLProgram string bool
  | SetOutputPackedMatrixTexture WebGLTexture int int
  | SetOutputMatrixTexture WebGLTexture int int
  | SetProgram WebGLProgram
  | Uniform1f WebGLUniformLocation f32
  | Uniform1fv WebGLUniformLocation "real list"
  | Uniform1iv WebGLUniformLocation "int list"
  | Uniform1i WebGLUniformLocation i32
  | SetInputMatrixTexture WebGLTexture WebGLUniformLocation nat
  | ExecuteProgram

type_synonym GPGPUContext = "gl_call list"

definition issue :: "gl_call \<Rightarrow> GPGPUContext \<Rightarrow> GPGPUContext" where
  "issue c gpgpu = gpgpu @ [c]"

text \<open>
  What lies outside this file and is not determined by the spec is a parameter:
  the environment's \<open>WEBGL_VERSION\<close>, \<open>util.packedShapeTransform\<close>,
  \<open>util.computeStrides\<close>, \<open>shader_compiler.makeShader\<close> (which returns source and key),
  and the driver's answers to \<open>createProgram\<close> (\<open>None\<close>: the source is rejected) and
  \<open>getUniformLocation\<close> (\<open>None\<close>: \<open>null\<close>).
\<close>

record externals =
  WEBGL_VERSION :: int
  packedShapeTransform :: "int list \<Rightarrow> int list"
  computeStrides :: "int list \<Rightarrow> int list"
  makeShader :: "InputInfo list \<Rightarrow> ShapeInfo \<Rightarrow> string \<Rightarrow> bool \<Rightarrow> string \<times> string"
  createProgram :: "string \<Rightarrow> WebGLProgram option"
  getUniformLocation :: "WebGLProgram \<Rightarrow> string \<Rightarrow> WebGLUniformLocation option"

subsection \<open>Helpers of \<open>util\<close>\<close>

text \<open>
  Modelled from the spec: \<open>util.arraysEqual\<close> is not part of the sources at hand. The
  validator "fails if logical shape differs from the recorded logical shape"; \<open>null\<close>
  is \<open>None\<close> and equals only \<open>null\<close>.
\<close>

fun arraysEqual :: "int list option \<Rightarrow> int list option \<Rightarrow> bool" where
  "arraysEqual None None = True"
| "arraysEqual None (Some b) = False"
| "arraysEqual (Some a) None = False"
| "arraysEqual (Some a) (Some b) = (length a = length b \<and> list_all2 (=) a b)"

text \<open>
  Modelled from the spec: \<open>util.sizeFromShape\<close> is not part of the sources at hand.
  It is "the logical element count", the product of the shape's entries (1 for a scalar).
\<close>

fun sizeFromShape :: "int list \<Rightarrow> int" where
  "sizeFromShape [] = 1"
| "sizeFromShape (d # ds) = d * sizeFromShape ds"

text \<open>
  Modelled from the spec: \<open>util.squeezeShape\<close> is not part of the sources at hand. It
  "squeezes out size-1 axes"; only its \<open>newShape\<close> is used.
\<close>

definition squeezeShape :: "int list \<Rightarrow> int list" where
  "squeezeShape s = filter (\<lambda>d. d \<noteq> 1) s"

text \<open>A texture shape as the two-element array it is in the source.\<close>

definition arr :: "int \<times> int \<Rightarrow> int list" where
  "arr t = [fst t, snd t]"

section \<open>\<open>validateBinaryAndProgram\<close>\<close>

text \<open>\<open>input.isUniform ? null : input.texData.texShape\<close>.\<close>

definition texShapeOf :: "TensorData \<Rightarrow> error + (int \<times> int) option" where
  "texShapeOf input =
     (if isUniform input then Inr None
      else (case texData input of
              None \<Rightarrow> Inl TypeError
            | Some td \<Rightarrow> Inr (Some (texShape td))))"

text \<open>The callback of \<open>shapeInfos.forEach\<close>, for an operand that exists.\<close>

definition validateOperand :: "ShapeInfo \<Rightarrow> TensorData \<Rightarrow> error option" where
  "validateOperand s input =
     (let shapeA = logicalShape s; shapeB = shape input in
      if \<not> arraysEqual (Some shapeA) (Some shapeB)
      then Some (ShapeMismatch (LogicalShapes shapeA shapeB))
      else if info_isUniform s \<and> isUniform input then None
      else (let texShapeA = info_texShape s in
            case texShapeOf input of
              Inl e \<Rightarrow> Some e
            | Inr texShapeB \<Rightarrow>
                if \<not> arraysEqual (map_option arr texShapeA) (map_option arr texShapeB)
                then Some (ShapeMismatch (TextureShapes texShapeA texShapeB))
                else None))"

text \<open>
  The \<open>forEach\<close> loop: operand \<open>i\<close> is \<open>inputs[i]\<close>; reading \<open>.shape\<close> of a missing
  operand raises.
\<close>

fun validateEach :: "ShapeInfo list \<Rightarrow> TensorData list \<Rightarrow> error option" where
  "validateEach [] inputs = None"
| "validateEach (s # ss) [] = Some TypeError"
| "validateEach (s # ss) (input # inputs) =
     (case validateOperand s input of
        Some e \<Rightarrow> Some e
      | None \<Rightarrow> validateEach ss inputs)"

definition validateBinaryAndProgram :: "ShapeInfo list \<Rightarrow> TensorData list \<Rightarrow> error option" where
  "validateBinaryAndProgram shapeInfos inputs =
     (if length shapeInfos \<noteq> length inputs
      then Some (ShapeMismatch (InputCount (length shapeInfos) (length inputs)))
      else validateEach shapeInfos inputs)"

section \<open>\<open>runProgram\<close>\<close>

definition uploadUniform1ivVals ::
  "GPGPUContext \<Rightarrow> GPGPUBinary \<Rightarrow> string \<Rightarrow> int list \<Rightarrow> GPGPUContext" where
  "uploadUniform1ivVals gpgpu binary uniformName values =
     (case uniformLocations binary uniformName of
        None \<Rightarrow> gpgpu
      | Some varLoc \<Rightarrow> issue (Uniform1iv varLoc values) gpgpu)"

definition uploadUniform1iVals ::
  "GPGPUContext \<Rightarrow> GPGPUBinary \<Rightarrow> string \<Rightarrow> i32 \<Rightarrow> GPGPUContext" where
  "uploadUniform1iVals gpgpu binary uniformName values =
     (case uniformLocations binary uniformName of
        None \<Rightarrow> gpgpu
      | Some varLoc \<Rightarrow> issue (Uniform1i varLoc values) gpgpu)"

text \<open>\<open>variableNames[i]\<close>, and a name inside a template string.\<close>

definition templ :: "string option \<Rightarrow> string" where
  "templ n = (case n of None \<Rightarrow> ''undefined'' | Some s \<Rightarrow> s)"

text \<open>The two per-row and per-batch counts, computed alike for inputs and output.\<close>

definition valuesPerRowOf :: "int list \<Rightarrow> i32" where
  "valuesPerRowOf shp = ceilHalfOf (idx shp (int (length shp) - 1))"

definition texelsInBatchOf :: "int list \<Rightarrow> i32" where
  "texelsInBatchOf shp =
     times (valuesPerRowOf shp) (ceilHalfOf (idx shp (int (length shp) - 2)))"

definition packedTexShapeOf :: "int \<times> int \<Rightarrow> int list" where
  "packedTexShapeOf t = [ceilHalf (fst t), ceilHalf (snd t)]"

text \<open>\<open>binary.program.variableNames[i]\<close> as it is used in names of uniforms.\<close>

definition varNameAt :: "GPGPUBinary \<Rightarrow> nat \<Rightarrow> string" where
  "varNameAt binary i = templ (idx (variableNames (program binary)) (int i))"

text \<open>The shape "used in a number of uniforms": packed transform or squeeze.\<close>

definition shaderShape :: "externals \<Rightarrow> GPGPUBinary \<Rightarrow> TensorData \<Rightarrow> int list" where
  "shaderShape ext binary input =
     (if usesPackedTextures (program binary)
      then packedShapeTransform ext (shape input)
      else squeezeShape (shape input))"

text \<open>The callback of \<open>inputs.forEach\<close> (input \<open>input\<close> at position \<open>i\<close>).\<close>

definition uploadInput ::
  "externals \<Rightarrow> GPGPUBinary \<Rightarrow> TensorData \<Rightarrow> nat \<Rightarrow> GPGPUContext \<Rightarrow> error option \<times> GPGPUContext" where
  "uploadInput ext binary input i gpgpu =
     (let varName = varNameAt binary i in
      case uniformLocations binary varName of
        None \<Rightarrow> (None, gpgpu)
      | Some varLoc \<Rightarrow>
          if isUniform input then
            (if sizeFromShape (shape input) < 2 then
               (case uniformValues input of
                  None \<Rightarrow> (Some TypeError, gpgpu)
                | Some vals \<Rightarrow>
                    (None, issue (Uniform1f varLoc (firstValue vals)) gpgpu))
             else
               (None, issue (Uniform1fv varLoc (toFloat32Array (uniformValues input))) gpgpu))
          else
            (let shp = shaderShape ext binary input;
                 g1 = uploadUniform1ivVals gpgpu binary (''shape'' @ varName) shp;
                 g2 = uploadUniform1ivVals g1 binary (''strides'' @ varName)
                        (computeStrides ext shp)
             in case texData input of
                  None \<Rightarrow> (Some TypeError, g2)
                | Some td \<Rightarrow>
                   (let g3 = uploadUniform1ivVals g2 binary (''texShape'' @ varName)
                               (arr (texShape td));
                        g4 = uploadUniform1ivVals g3 binary (''packedTexShape'' @ varName)
                               (packedTexShapeOf (texShape td));
                        g5 = uploadUniform1iVals g4 binary (''valuesPerRow'' @ varName)
                               (valuesPerRowOf shp);
                        g6 = uploadUniform1iVals g5 binary (''texelsInBatch'' @ varName)
                               (texelsInBatchOf shp);
                        g7 = (case slice td of
                                None \<Rightarrow> g6
                              | Some sl \<Rightarrow>
                                  uploadUniform1iVals g6 binary (''offset'' @ varName)
                                    (I (flatOffset sl)))
                    in (None, issue (SetInputMatrixTexture (texture td) varLoc i) g7))))"

text \<open>The \<open>inputs.forEach\<close> loop, from position \<open>i\<close> on; an exception ends it.\<close>

fun uploadInputs ::
  "externals \<Rightarrow> GPGPUBinary \<Rightarrow> nat \<Rightarrow> TensorData list \<Rightarrow> GPGPUContext \<Rightarrow> error option \<times> GPGPUContext" where
  "uploadInputs ext binary i [] gpgpu = (None, gpgpu)"
| "uploadInputs ext binary i (input # inputs) gpgpu =
     (case uploadInput ext binary input i gpgpu of
        (Some e, g) \<Rightarrow> (Some e, g)
      | (None, g) \<Rightarrow> uploadInputs ext binary (Suc i) inputs g)"

text \<open>The block guarded by \<open>output.shape.length > 0\<close>; \<open>td\<close> is \<open>output.texData\<close>.\<close>

definition uploadOutput ::
  "externals \<Rightarrow> GPGPUBinary \<Rightarrow> TensorData \<Rightarrow> TextureData \<Rightarrow> GPGPUContext \<Rightarrow> GPGPUContext" where
  "uploadOutput ext binary output td gpgpu =
     (let outputShape = shape output;
          g1 = uploadUniform1ivVals gpgpu binary ''outputShape'' outputShape;
          g2 = uploadUniform1ivVals g1 binary ''outputStrides'' (computeStrides ext outputShape);
          g3 = uploadUniform1ivVals g2 binary ''outputTexShape'' (arr (texShape td));
          g4 = uploadUniform1ivVals g3 binary ''outputPackedTexShape''
                 (packedTexShapeOf (texShape td));
          g5 = uploadUniform1iVals g4 binary ''outputTexelsInLogicalRow''
                 (valuesPerRowOf outputShape)
      in uploadUniform1iVals g5 binary ''outputTexelsInBatch'' (texelsInBatchOf outputShape))"

text \<open>The special uniforms (the block commented "Set special uniforms").\<close>

definition setSpecialUniforms :: "externals \<Rightarrow> GPGPUBinary \<Rightarrow> GPGPUContext \<Rightarrow> GPGPUContext" where
  "setSpecialUniforms ext binary gpgpu =
     (let g1 = (if WEBGL_VERSION ext = 1
                then (case infLoc binary of
                        None \<Rightarrow> gpgpu
                      | Some l \<Rightarrow> issue (Uniform1f l F_Infinity) gpgpu)
                else gpgpu)
      in case nanLoc binary of
           None \<Rightarrow> g1
         | Some l \<Rightarrow> issue (Uniform1f l F_NaN) g1)"

text \<open>
  The caller's hook sees the context and the program handle and issues operations of
  its own, or raises.
\<close>

type_synonym setup_hook = "GPGPUContext \<Rightarrow> WebGLProgram \<Rightarrow> error option \<times> gl_call list"

definition runProgram ::
  "externals \<Rightarrow> GPGPUContext \<Rightarrow> GPGPUBinary \<Rightarrow> TensorData list \<Rightarrow> TensorData \<Rightarrow>
   setup_hook option \<Rightarrow> error option \<times> GPGPUContext" where
  "runProgram ext gpgpu binary inputs output customSetup =
     (case validateBinaryAndProgram (inShapeInfos binary) inputs of
        Some e \<Rightarrow> (Some e, gpgpu)
      | None \<Rightarrow>
     (case validateBinaryAndProgram [outShapeInfo binary] [output] of
        Some e \<Rightarrow> (Some e, gpgpu)
      | None \<Rightarrow>
     (case texData output of
        None \<Rightarrow> (Some TypeError, gpgpu)
      | Some td \<Rightarrow>
         (let outTex = texture td;
              outTexShape = texShape td;
              g1 = (if isPacked td
                    then issue (SetOutputPackedMatrixTexture outTex (fst outTexShape) (snd outTexShape)) gpgpu
                    else issue (SetOutputMatrixTexture outTex (fst outTexShape) (snd outTexShape)) gpgpu);
              g2 = issue (SetProgram (webGLProgram binary)) g1;
              g3 = setSpecialUniforms ext binary g2
          in case uploadInputs ext binary 0 inputs g3 of
               (Some e, g4) \<Rightarrow> (Some e, g4)
             | (None, g4) \<Rightarrow>
                (let g5 = (if length (shape output) > 0
                           then uploadOutput ext binary output td g4
                           else g4)
                 in case customSetup of
                      None \<Rightarrow> (None, issue ExecuteProgram g5)
                    | Some hook \<Rightarrow>
                       (case hook g5 (webGLProgram binary) of
                          (Some e, cs) \<Rightarrow> (Some e, g5 @ cs)
                        | (None, cs) \<Rightarrow> (None, issue ExecuteProgram (g5 @ cs))))))))"

section \<open>\<open>assembleProgramSource\<close> and \<open>compileProgram\<close>\<close>

text \<open>The callback of \<open>inputs.map\<close> in \<open>assembleProgramSource\<close>.\<close>

definition inputInfoOf :: "GPGPUProgram \<Rightarrow> TensorData \<Rightarrow> nat \<Rightarrow> error + InputInfo" where
  "inputInfoOf prog input i =
     (if \<not> isUniform input \<and> texData input = None then Inl TypeError
      else
        (let si = \<lparr> logicalShape = shape input,
                    info_texShape = (if isUniform input then None
                                     else map_option texShape (texData input)),
                    info_isUniform = isUniform input,
                    info_isPacked = (if isUniform input then False
                                     else (case texData input of
                                             None \<Rightarrow> False
                                           | Some td \<Rightarrow> isPacked td)),
                    info_flatOffset = None \<rparr>;
             si' = (case texData input of
                      None \<Rightarrow> si
                    | Some td \<Rightarrow>
                       (case slice td of
                          None \<Rightarrow> si
                        | Some sl \<Rightarrow>
                            if flatOffset sl > 0
                            then si \<lparr> info_flatOffset := Some (flatOffset sl) \<rparr>
                            else si))
         in Inr \<lparr> name = idx (variableNames prog) (int i), shapeInfo = si' \<rparr>))"

fun inputInfosOf :: "GPGPUProgram \<Rightarrow> nat \<Rightarrow> TensorData list \<Rightarrow> error + InputInfo list" where
  "inputInfosOf prog i [] = Inr []"
| "inputInfosOf prog i (input # inputs) =
     (case inputInfoOf prog input i of
        Inl e \<Rightarrow> Inl e
      | Inr info \<Rightarrow>
         (case inputInfosOf prog (Suc i) inputs of
            Inl e \<Rightarrow> Inl e
          | Inr infos \<Rightarrow> Inr (info # infos)))"

record assembled =
  key :: string
  asm_source :: string
  inputInfos :: "InputInfo list"
  asm_outShapeInfo :: ShapeInfo

definition assembleProgramSource ::
  "externals \<Rightarrow> GPGPUProgram \<Rightarrow> TensorData list \<Rightarrow> TensorData \<Rightarrow> error + assembled" where
  "assembleProgramSource ext prog inputs output =
     (case inputInfosOf prog 0 inputs of
        Inl e \<Rightarrow> Inl e
      | Inr infos \<Rightarrow>
         (case texData output of
            None \<Rightarrow> Inl TypeError
          | Some td \<Rightarrow>
             (let outInfo = \<lparr> logicalShape = shape output,
                              info_texShape = Some (texShape td),
                              info_isUniform = False,
                              info_isPacked = isPacked td,
                              info_flatOffset = None \<rparr>;
                  sk = makeShader ext infos outInfo (userCode prog) (usesPackedTextures prog)
              in Inr \<lparr> key = snd sk, asm_source = fst sk,
                       inputInfos = infos, asm_outShapeInfo = outInfo \<rparr>)))"

text \<open>
  \<open>gpgpu.getUniformLocation(webGLProgram, name, shouldThrow)\<close>: the query is issued
  and the driver's answer returned. Every call of this file passes \<open>shouldThrow = false\<close>.
\<close>

type_synonym locations = "string \<Rightarrow> WebGLUniformLocation option"

fun recordUniformLocations ::
  "externals \<Rightarrow> GPGPUContext \<Rightarrow> WebGLProgram \<Rightarrow> locations \<Rightarrow> bool \<Rightarrow> string list \<Rightarrow>
   locations \<times> GPGPUContext" where
  "recordUniformLocations ext gpgpu p locs shouldThrow [] = (locs, gpgpu)"
| "recordUniformLocations ext gpgpu p locs shouldThrow (varName # varNames) =
     (let g1 = issue (GetUniformLocation p varName shouldThrow) gpgpu;
          locs1 = (case getUniformLocation ext p varName of
                     None \<Rightarrow> locs
                   | Some varLocation \<Rightarrow> locs(varName \<mapsto> varLocation))
      in recordUniformLocations ext g1 p locs1 shouldThrow varNames)"

text \<open>The loop commented "Add user-defined uniforms".\<close>

fun userUniforms ::
  "externals \<Rightarrow> GPGPUContext \<Rightarrow> WebGLProgram \<Rightarrow> locations \<Rightarrow> string list \<Rightarrow>
   locations \<times> GPGPUContext" where
  "userUniforms ext gpgpu p locs [] = (locs, gpgpu)"
| "userUniforms ext gpgpu p locs (varName # varNames) =
     (let g1 = issue (GetUniformLocation p varName False) gpgpu;
          locs1 = locs(varName := getUniformLocation ext p varName);
          g2 = issue (GetUniformLocation p (''offset'' @ varName) False) g1;
          locs2 = locs1(''offset'' @ varName := getUniformLocation ext p (''offset'' @ varName))
      in userUniforms ext g2 p locs2 varNames)"

text \<open>The loop commented "Record uniform locations for input shapes".\<close>

fun inputShapeUniforms ::
  "externals \<Rightarrow> GPGPUContext \<Rightarrow> WebGLProgram \<Rightarrow> locations \<Rightarrow> InputInfo list \<Rightarrow>
   locations \<times> GPGPUContext" where
  "inputShapeUniforms ext gpgpu p locs [] = (locs, gpgpu)"
| "inputShapeUniforms ext gpgpu p locs (inputInfo # infos) =
     (let n = templ (name inputInfo);
          r = (if length (logicalShape (shapeInfo inputInfo)) > 0
               then recordUniformLocations ext gpgpu p locs False
                      [''shape'' @ n, ''texShape'' @ n, ''strides'' @ n,
                       ''packedTexShape'' @ n, ''valuesPerRow'' @ n, ''texelsInBatch'' @ n]
               else (locs, gpgpu))
      in inputShapeUniforms ext (snd r) p (fst r) infos)"

definition compileProgram ::
  "externals \<Rightarrow> GPGPUContext \<Rightarrow> GPGPUProgram \<Rightarrow> TensorData list \<Rightarrow> TensorData \<Rightarrow>
   (error + GPGPUBinary) \<times> GPGPUContext" where
  "compileProgram ext gpgpu prog inputs output =
     (case assembleProgramSource ext prog inputs output of
        Inl e \<Rightarrow> (Inl e, gpgpu)
      | Inr a \<Rightarrow>
         (let g1 = issue (CreateProgram (asm_source a)) gpgpu in
          case createProgram ext (asm_source a) of
            None \<Rightarrow> (Inl CompileFailure, g1)
          | Some p \<Rightarrow>
             (let g2 = issue (GetUniformLocation p ''NAN'' False) g1;
                  nan = getUniformLocation ext p ''NAN'';
                  r3 = (if WEBGL_VERSION ext = 1
                        then (getUniformLocation ext p ''INFINITY'',
                              issue (GetUniformLocation p ''INFINITY'' False) g2)
                        else (None, g2));
                  r4 = userUniforms ext (snd r3) p (\<lambda>n. None) (variableNames prog);
                  r5 = inputShapeUniforms ext (snd r4) p (fst r4) (inputInfos a);
                  r6 = (if length (logicalShape (asm_outShapeInfo a)) > 0
                        then recordUniformLocations ext (snd r5) p (fst r5) False
                               [''outputShape'', ''outputStrides'', ''outputTexShape'',
                                ''outputPackedTexShape'', ''outputTexelsInLogicalRow'',
                                ''outputTexelsInBatch'']
                        else r5)
              in (Inr \<lparr> webGLProgram = p, program = prog, uniformLocations = fst r6,
                        source = asm_source a,
                        inShapeInfos = map shapeInfo (inputInfos a),
                        outShapeInfo = asm_outShapeInfo a,
                        infLoc = fst r3, nanLoc = nan \<rparr>,
                  snd r6))))"

section \<open>\<open>makeShaderKey\<close>\<close>

text \<open>
  A template string prints an integer in decimal, an array as its entries joined by
  commas, and a boolean as \<open>true\<close> or \<open>false\<close>.
\<close>

definition digitChar :: "nat \<Rightarrow> char" where
  "digitChar d = ''0123456789'' ! d"

fun showNat :: "nat \<Rightarrow> string" where
  "showNat n = (if n < 10 then [digitChar n] else showNat (n div 10) @ [digitChar (n mod 10)])"

declare showNat.simps [simp del]

definition showInt :: "int \<Rightarrow> string" where
  "showInt i = (if i < 0 then CHR ''-'' # showNat (nat (- i)) else showNat (nat i))"

fun showArray :: "int list \<Rightarrow> string" where
  "showArray [] = []"
| "showArray [x] = showInt x"
| "showArray (x # y # ys) = showInt x @ '','' @ showArray (y # ys)"

definition showBool :: "bool \<Rightarrow> string" where
  "showBool b = (if b then ''true'' else ''false'')"

definition hasOffset :: "TensorData \<Rightarrow> bool" where
  "hasOffset x =
     (case texData x of
        None \<Rightarrow> False
      | Some td \<Rightarrow> (case slice td of None \<Rightarrow> False | Some sl \<Rightarrow> flatOffset sl > 0))"

text \<open>What the callback of \<open>inputs.concat(output).forEach\<close> appends to \<open>keyInputs\<close>.\<close>

definition operandKey :: "TensorData \<Rightarrow> error + string" where
  "operandKey x =
     (if isUniform x
      then Inr (showArray (shape x) @ ''_'' @ ''uniform'' @ ''_'' @ showBool (hasOffset x))
      else (case texData x of
              None \<Rightarrow> Inl TypeError
            | Some td \<Rightarrow>
                Inr (showArray (shape x) @ ''_'' @ showArray (arr (texShape td)) @ ''_''
                     @ showBool (hasOffset x))))"

fun keyInputsOf :: "string \<Rightarrow> TensorData list \<Rightarrow> error + string" where
  "keyInputsOf keyInputs [] = Inr keyInputs"
| "keyInputsOf keyInputs (x # xs) =
     (case operandKey x of
        Inl e \<Rightarrow> Inl e
      | Inr k \<Rightarrow> keyInputsOf (keyInputs @ k) xs)"

definition makeShaderKey :: "GPGPUProgram \<Rightarrow> TensorData list \<Rightarrow> TensorData \<Rightarrow> error + string" where
  "makeShaderKey prog inputs output =
     (case keyInputsOf [] (inputs @ [output]) of
        Inl e \<Rightarrow> Inl e
      | Inr keyInputs \<Rightarrow>
          Inr (constructorName prog @ ''_'' @ keyInputs @ ''_'' @ userCode prog))"

section \<open>Vocabulary of the properties\<close>

text \<open>
  The data model's invariant on an operand: it is uniform-backed or it has texture data.
\<close>

definition wellFormed :: "TensorData \<Rightarrow> bool" where
  "wellFormed x = (isUniform x \<or> texData x \<noteq> None)"

text \<open>
  A current operand agrees with a recorded \<open>ShapeInfo\<close>: same logical shape, and both
  uniform-backed or the same physical texture shape. Neither the packed flag nor the slice
  offset occurs.
\<close>

definition agrees :: "ShapeInfo \<Rightarrow> TensorData \<Rightarrow> bool" where
  "agrees s x =
     (logicalShape s = shape x \<and>
      ((info_isUniform s \<and> isUniform x) \<or> texShapeOf x = Inr (info_texShape s)))"

text \<open>
  The operations an upload helper issues: none when the location is not resolved.
\<close>

definition calls1iv :: "GPGPUBinary \<Rightarrow> string \<Rightarrow> int list \<Rightarrow> gl_call list" where
  "calls1iv binary uniformName values =
     (case uniformLocations binary uniformName of
        None \<Rightarrow> []
      | Some varLoc \<Rightarrow> [Uniform1iv varLoc values])"

definition calls1i :: "GPGPUBinary \<Rightarrow> string \<Rightarrow> i32 \<Rightarrow> gl_call list" where
  "calls1i binary uniformName v =
     (case uniformLocations binary uniformName of
        None \<Rightarrow> []
      | Some varLoc \<Rightarrow> [Uniform1i varLoc v])"

text \<open>
  The six layout uploads of a texture-backed input named \<open>n\<close>, with shader-visible
  shape \<open>shp\<close> and physical texture shape \<open>t\<close>, in the order of the source.
\<close>

definition layoutCalls ::
  "externals \<Rightarrow> GPGPUBinary \<Rightarrow> string \<Rightarrow> int list \<Rightarrow> int \<times> int \<Rightarrow> gl_call list" where
  "layoutCalls ext binary n shp t =
     calls1iv binary (''shape'' @ n) shp @
     calls1iv binary (''strides'' @ n) (computeStrides ext shp) @
     calls1iv binary (''texShape'' @ n) (arr t) @
     calls1iv binary (''packedTexShape'' @ n) (packedTexShapeOf t) @
     calls1i binary (''valuesPerRow'' @ n) (valuesPerRowOf shp) @
     calls1i binary (''texelsInBatch'' @ n) (texelsInBatchOf shp)"

text \<open>
  The operations of a run that passes validation, before the hook and the dispatch: the
  binding of the output, the activation of the program, the special uniforms, the uploads
  of every input, and the uploads of the output when it is not a scalar.
\<close>

definition bindCall :: "TextureData \<Rightarrow> gl_call" where
  "bindCall td =
     (if isPacked td
      then SetOutputPackedMatrixTexture (texture td) (fst (texShape td)) (snd (texShape td))
      else SetOutputMatrixTexture (texture td) (fst (texShape td)) (snd (texShape td)))"

definition specialCalls :: "externals \<Rightarrow> GPGPUBinary \<Rightarrow> gl_call list" where
  "specialCalls ext b =
     (if WEBGL_VERSION ext = 1
      then (case infLoc b of None \<Rightarrow> [] | Some l \<Rightarrow> [Uniform1f l F_Infinity])
      else []) @
     (case nanLoc b of None \<Rightarrow> [] | Some l \<Rightarrow> [Uniform1f l F_NaN])"

definition outputCalls :: "externals \<Rightarrow> GPGPUBinary \<Rightarrow> TensorData \<Rightarrow> TextureData \<Rightarrow> gl_call list" where
  "outputCalls ext b out td =
         calls1iv b ''outputShape'' (shape out) @
         calls1iv b ''outputStrides'' (computeStrides ext (shape out)) @
         calls1iv b ''outputTexShape'' (arr (texShape td)) @
         calls1iv b ''outputPackedTexShape'' (packedTexShapeOf (texShape td)) @
         calls1i b ''outputTexelsInLogicalRow'' (valuesPerRowOf (shape out)) @
         calls1i b ''outputTexelsInBatch'' (texelsInBatchOf (shape out))"

definition standardCalls ::
  "externals \<Rightarrow> GPGPUBinary \<Rightarrow> TensorData list \<Rightarrow> TensorData \<Rightarrow> TextureData \<Rightarrow> gl_call list" where
  "standardCalls ext b ins out td =
     [bindCall td, SetProgram (webGLProgram b)] @ specialCalls ext b @
     snd (uploadInputs ext b 0 ins []) @
     (if shape out \<noteq> [] then outputCalls ext b out td else [])"

text \<open>
  Modelled from the spec: the uniform values of the context (gpgpu_context.ts and the
  rendering API are not part of the sources at hand). An upload sets the value at its
  location; the value a later operation observes at a location is the one uploaded last.
\<close>

datatype uniform_value = UFloat f32 | UFloats "real list" | UInts "int list" | UInt i32

fun written :: "gl_call \<Rightarrow> (WebGLUniformLocation \<times> uniform_value) option" where
  "written (Uniform1f l v) = Some (l, UFloat v)"
| "written (Uniform1fv l vs) = Some (l, UFloats vs)"
| "written (Uniform1iv l vs) = Some (l, UInts vs)"
| "written (Uniform1i l v) = Some (l, UInt v)"
| "written c = None"

definition record_write ::
  "gl_call \<Rightarrow> (WebGLUniformLocation \<Rightarrow> uniform_value option) \<Rightarrow> (WebGLUniformLocation \<Rightarrow> uniform_value option)" where
  "record_write c m = (case written c of None \<Rightarrow> m | Some (l, v) \<Rightarrow> m(l \<mapsto> v))"

definition uniformsOf :: "GPGPUContext \<Rightarrow> WebGLUniformLocation \<Rightarrow> uniform_value option" where
  "uniformsOf g = fold record_write g Map.empty"

text \<open>
  The names whose locations \<open>compileProgram\<close> queries after the special uniforms:
  each variable and its offset, the six layout uniforms of each non-scalar input, and
  the six of a non-scalar output.
\<close>

definition shapeUniformNames :: "string \<Rightarrow> string list" where
  "shapeUniformNames n =
     [''shape'' @ n, ''texShape'' @ n, ''strides'' @ n,
      ''packedTexShape'' @ n, ''valuesPerRow'' @ n, ''texelsInBatch'' @ n]"

definition outputUniformNames :: "string list" where
  "outputUniformNames =
     [''outputShape'', ''outputStrides'', ''outputTexShape'',
      ''outputPackedTexShape'', ''outputTexelsInLogicalRow'', ''outputTexelsInBatch'']"

definition layoutNames :: "GPGPUProgram \<Rightarrow> InputInfo list \<Rightarrow> ShapeInfo \<Rightarrow> string list" where
  "layoutNames prog infos outInfo =
     concat (map (\<lambda>v. [v, ''offset'' @ v]) (variableNames prog)) @
     concat (map (\<lambda>info. if logicalShape (shapeInfo info) \<noteq> []
                          then shapeUniformNames (templ (name info)) else []) infos) @
     (if logicalShape outInfo \<noteq> [] then outputUniformNames else [])"

text \<open>
  What \<open>makeShaderKey\<close> prints of an operand, and \<open>enc\<close>, the text one operand
  contributes to the key.
\<close>

definition digitChars :: "char set" where
  "digitChars = set ''0123456789''"

type_synonym layout = "int list \<times> (int \<times> int) option \<times> bool"

definition keyFields :: "TensorData \<Rightarrow> layout" where
  "keyFields x =
     (shape x, (if isUniform x then None else map_option texShape (texData x)), hasOffset x)"

definition enc :: "layout \<Rightarrow> string" where
  "enc l = (case l of (s, t, b) \<Rightarrow>
     showArray s @ ''_'' @ (case t of None \<Rightarrow> ''uniform'' | Some t' \<Rightarrow> showArray (arr t'))
       @ ''_'' @ showBool b)"

text \<open>
  The layout of an operand as the specification of the key states it: its logical shape,
  its physical texture shape (\<open>None\<close> when it is stored as a uniform), and whether it
  carries a nonzero slice offset. A flat offset is a position in the backing buffer, so
  it is not negative: \<open>offsetValid\<close>.
\<close>

definition carriesOffset :: "TensorData \<Rightarrow> bool" where
  "carriesOffset x =
     (case texData x of
        None \<Rightarrow> False
      | Some td \<Rightarrow> (case slice td of None \<Rightarrow> False | Some sl \<Rightarrow> flatOffset sl \<noteq> 0))"

definition offsetValid :: "TensorData \<Rightarrow> bool" where
  "offsetValid x =
     (case texData x of
        None \<Rightarrow> True
      | Some td \<Rightarrow> (case slice td of None \<Rightarrow> True | Some sl \<Rightarrow> 0 \<le> flatOffset sl))"

definition layoutOf :: "TensorData \<Rightarrow> layout" where
  "layoutOf x =
     (shape x, (if isUniform x then None else map_option texShape (texData x)),
      carriesOffset x)"

text \<open>
  The operations the callback of \<open>inputs.forEach\<close> issues for the input at
  position \<open>i\<close>.
\<close>

definition inputCalls :: "externals \<Rightarrow> GPGPUBinary \<Rightarrow> TensorData \<Rightarrow> nat \<Rightarrow> gl_call list" where
  "inputCalls ext binary input i = snd (uploadInput ext binary input i [])"

section \<open>Sample values\<close>

definition ext1 :: externals where
  "ext1 = \<lparr> WEBGL_VERSION = 1, packedShapeTransform = (\<lambda>s. s), computeStrides = (\<lambda>s. []),
            makeShader = (\<lambda>infos out code packed. (code, [])),
            createProgram = (\<lambda>src. Some 1),
            getUniformLocation = (\<lambda>p n. if n = ''NAN'' then Some 1
                                         else if n = ''INFINITY'' then Some 2 else None) \<rparr>"

definition texA :: TextureData where
  "texA = \<lparr> texture = 7, texShape = (3, 5), isPacked = False, slice = None \<rparr>"

definition operandA :: TensorData where
  "operandA = \<lparr> shape = [2, 6], texData = Some texA, isUniform = False, uniformValues = None \<rparr>"

definition infoA :: ShapeInfo where
  "infoA = \<lparr> logicalShape = [2, 6], info_texShape = Some (3, 5), info_isUniform = False,
             info_isPacked = False, info_flatOffset = None \<rparr>"

definition progA :: GPGPUProgram where
  "progA = \<lparr> constructorName = ''UnaryOpProgram'', variableNames = [''A''],
             outputShape = [2, 6], userCode = ''return x;'', usesPackedTextures = False,
             isPackShader = False \<rparr>"

definition binaryA :: GPGPUBinary where
  "binaryA = \<lparr> webGLProgram = 1, program = progA,
               uniformLocations = [''A'' \<mapsto> 10, ''offsetA'' \<mapsto> 11, ''packedTexShapeA'' \<mapsto> 12,
                                   ''texelsInBatchA'' \<mapsto> 13, ''outputPackedTexShape'' \<mapsto> 14,
                                   ''outputTexelsInBatch'' \<mapsto> 15],
               source = ''return x;'', inShapeInfos = [infoA], outShapeInfo = infoA,
               infLoc = Some 2, nanLoc = Some 1 \<rparr>"

definition opZero :: TensorData where
  "opZero = operandA \<lparr> texData := Some (texA \<lparr> slice := Some \<lparr> flatOffset = 0 \<rparr> \<rparr>) \<rparr>"

definition operandT :: TensorData where
  "operandT = operandA \<lparr> texData := Some (texA \<lparr> texShape := (5, 3) \<rparr>) \<rparr>"

definition uniformVec :: TensorData where
  "uniformVec = \<lparr> shape = [1, 4], texData = None, isUniform = True,
                  uniformValues = Some (Float32Array [1, 2, 3, 4]) \<rparr>"

definition uniformOne :: TensorData where
  "uniformOne = \<lparr> shape = [1, 1], texData = None, isUniform = True,
                  uniformValues = Some (Float32Array [7]) \<rparr>"

definition hookA :: setup_hook where
  "hookA g p = (None, [Uniform1f 1 (F 0)])"

definition operandRow :: TensorData where
  "operandRow = operandA \<lparr> shape := [1, 4] \<rparr>"

definition outputRow :: TensorData where
  "outputRow = operandA \<lparr> shape := [4] \<rparr>"

definition binaryRow :: GPGPUBinary where
  "binaryRow = binaryA \<lparr> inShapeInfos := [infoA \<lparr> logicalShape := [1, 4] \<rparr>],
                         outShapeInfo := infoA \<lparr> logicalShape := [4] \<rparr> \<rparr>"

definition asmA :: assembled where
  "asmA = \<lparr> key = [], asm_source = ''return x;'',
            inputInfos = [\<lparr> name = Some ''A'', shapeInfo = infoA \<rparr>],
            asm_outShapeInfo = infoA \<rparr>"

definition opS4 :: TensorData where
  "opS4 = operandA \<lparr> texData := Some (texA \<lparr> slice := Some \<lparr> flatOffset = 4 \<rparr> \<rparr>) \<rparr>"

definition opS8 :: TensorData where
  "opS8 = operandA \<lparr> texData := Some (texA \<lparr> slice := Some \<lparr> flatOffset = 8 \<rparr> \<rparr>) \<rparr>"

definition operandU :: TensorData where
  "operandU = \<lparr> shape = [2, 6], texData = None, isUniform = True,
                uniformValues = Some (Float32Array [0, 0, 0, 0, 0, 0, 0, 0, 0, 0, 0, 0]) \<rparr>"

definition uniformInts :: TensorData where
  "uniformInts = \<lparr> shape = [2], texData = None, isUniform = True,
                   uniformValues = Some (Int32Array [16777217, 3]) \<rparr>"

definition progABC :: GPGPUProgram where
  "progABC = progA \<lparr> variableNames := [''A'', ''B'', ''C''] \<rparr>"

definition binaryABC :: GPGPUBinary where
  "binaryABC = binaryA \<lparr> program := progABC,
       uniformLocations := [''A'' \<mapsto> 10, ''offsetA'' \<mapsto> 11, ''B'' \<mapsto> 20, ''offsetB'' \<mapsto> 21,
                            ''C'' \<mapsto> 30, ''offsetC'' \<mapsto> 31],
       inShapeInfos := [infoA, infoA, infoA] \<rparr>"

definition infoU :: "int list \<Rightarrow> ShapeInfo" where
  "infoU s = \<lparr> logicalShape = s, info_texShape = None, info_isUniform = True,
               info_isPacked = False, info_flatOffset = None \<rparr>"

definition binaryU :: GPGPUBinary where
  "binaryU = binaryA \<lparr> program := progABC,
       uniformLocations := [''A'' \<mapsto> 10, ''B'' \<mapsto> 20, ''C'' \<mapsto> 30],
       inShapeInfos := [infoU [1, 4], infoU [1, 1], infoU [2]] \<rparr>"

section \<open>Validation\<close>

lemma arraysEqual_iff: "arraysEqual a b = (a = b)"
  by (cases a; cases b) (auto simp: list_all2_eq [symmetric] dest: list_all2_lengthD)

lemma arr_inject: "arr s = arr t \<longleftrightarrow> s = t"
  by (cases s; cases t) (simp add: arr_def)

lemma map_option_arr_inject: "map_option arr a = map_option arr b \<longleftrightarrow> a = b"
  by (cases a; cases b) (simp_all add: arr_inject)

lemma validateOperand_cases:
  "validateOperand s x =
     (if logicalShape s \<noteq> shape x then Some (ShapeMismatch (LogicalShapes (logicalShape s) (shape x)))
      else if info_isUniform s \<and> isUniform x then None
      else (case texShapeOf x of Inl e \<Rightarrow> Some e
            | Inr t \<Rightarrow> if info_texShape s \<noteq> t then Some (ShapeMismatch (TextureShapes (info_texShape s) t)) else None))"
  by (simp add: validateOperand_def Let_def arraysEqual_iff map_option_arr_inject split: sum.splits)

lemma texShapeOf_wellFormed: "wellFormed x \<Longrightarrow> \<exists>t. texShapeOf x = Inr t"
  by (auto simp: wellFormed_def texShapeOf_def)

lemma validateOperand_wellFormed:
  "wellFormed x \<Longrightarrow> validateOperand s x = None \<or> (\<exists>m. validateOperand s x = Some (ShapeMismatch m))"
  using texShapeOf_wellFormed [of x] by (auto simp: validateOperand_cases split: if_splits)

lemma validateEach_fails:
  "length ss = length xs \<Longrightarrow> i < length xs \<Longrightarrow> validateOperand (ss ! i) (xs ! i) \<noteq> None
   \<Longrightarrow> validateEach ss xs \<noteq> None"
proof (induction ss xs arbitrary: i rule: validateEach.induct)
  case (3 s ss x xs)
  then show ?case by (cases i) (auto split: option.splits)
qed simp_all

lemma validateEach_wellFormed:
  "\<forall>x \<in> set xs. wellFormed x \<Longrightarrow> length ss = length xs \<Longrightarrow>
   validateEach ss xs = None \<or> (\<exists>m. validateEach ss xs = Some (ShapeMismatch m))"
proof (induction ss xs rule: validateEach.induct)
  case (3 s ss x xs)
  then show ?case using validateOperand_wellFormed [of x s] by (auto split: option.splits)
qed simp_all

lemma validateEach_passes:
  "list_all2 (\<lambda>s x. validateOperand s x = None) ss xs \<Longrightarrow> validateEach ss xs = None"
  by (induction ss xs rule: list_all2_induct) auto

text \<open>
  C1. If the number of current operands differs from the number of recorded inputs, or the
  logical shape of some operand differs from the recorded one, \<open>runProgram\<close> raises and
  leaves the context as it was: no operation is issued, so no dispatch. When every operand
  satisfies the data model's invariant, what it raises is a \<open>ShapeMismatch\<close>.
\<close>

theorem runProgram_shape_mismatch:
  assumes "length inputs \<noteq> length (inShapeInfos binary) \<or>
           (\<exists>i < length inputs. logicalShape (inShapeInfos binary ! i) \<noteq> shape (inputs ! i))"
  shows "(\<exists>e. runProgram ext gpgpu binary inputs output customSetup = (Some e, gpgpu)) \<and>
         ((\<forall>x \<in> set inputs. wellFormed x) \<longrightarrow>
          (\<exists>m. runProgram ext gpgpu binary inputs output customSetup
                 = (Some (ShapeMismatch m), gpgpu)))"
proof -
  let ?v = "validateBinaryAndProgram (inShapeInfos binary) inputs"
  have fails: "?v \<noteq> None"
  proof (cases "length inputs = length (inShapeInfos binary)")
    case False
    then show ?thesis by (auto simp: validateBinaryAndProgram_def)
  next
    case True
    with assms obtain i where i: "i < length inputs"
      and ne: "logicalShape (inShapeInfos binary ! i) \<noteq> shape (inputs ! i)" by auto
    from ne have "validateOperand (inShapeInfos binary ! i) (inputs ! i) \<noteq> None"
      by (simp add: validateOperand_cases)
    with True i have "validateEach (inShapeInfos binary) inputs \<noteq> None"
      using validateEach_fails [of "inShapeInfos binary" inputs i] by simp
    with True show ?thesis by (simp add: validateBinaryAndProgram_def)
  qed
  then obtain e where e: "?v = Some e" by auto
  then have run: "runProgram ext gpgpu binary inputs output customSetup = (Some e, gpgpu)"
    by (simp add: runProgram_def)
  have "\<exists>m. e = ShapeMismatch m" if wf: "\<forall>x \<in> set inputs. wellFormed x"
  proof (cases "length inputs = length (inShapeInfos binary)")
    case False
    with e show ?thesis by (auto simp: validateBinaryAndProgram_def)
  next
    case True
    with e wf show ?thesis
      using validateEach_wellFormed [of inputs "inShapeInfos binary"]
      by (auto simp: validateBinaryAndProgram_def)
  qed
  with run show ?thesis by auto
qed

theorem runProgram_shape_mismatch_witness:
  "logicalShape (inShapeInfos binaryA ! 0) \<noteq> shape ([operandA \<lparr> shape := [6, 2] \<rparr>] ! 0) \<and>
   wellFormed (operandA \<lparr> shape := [6, 2] \<rparr>) \<and>
   (\<exists>m. runProgram ext1 [] binaryA [operandA \<lparr> shape := [6, 2] \<rparr>] operandA None
          = (Some (ShapeMismatch m), [])) \<and>
   length [operandA, operandA] \<noteq> length (inShapeInfos binaryA) \<and>
   (\<exists>m. runProgram ext1 [] binaryA [operandA, operandA] operandA None
          = (Some (ShapeMismatch m), []))"
proof -
  let ?x = "operandA \<lparr> shape := [6, 2] \<rparr>"
  have ne: "logicalShape (inShapeInfos binaryA ! 0) \<noteq> shape ([?x] ! 0)"
    by (simp add: binaryA_def infoA_def operandA_def)
  then have h: "length [?x] \<noteq> length (inShapeInfos binaryA) \<or>
     (\<exists>i < length [?x]. logicalShape (inShapeInfos binaryA ! i) \<noteq> shape ([?x] ! i))"
    by auto
  have wf: "wellFormed ?x" "wellFormed operandA"
    by (simp_all add: wellFormed_def operandA_def)
  have len: "length [operandA, operandA] \<noteq> length (inShapeInfos binaryA)"
    by (simp add: binaryA_def)
  then have h2: "length [operandA, operandA] \<noteq> length (inShapeInfos binaryA) \<or>
     (\<exists>i < length [operandA, operandA].
        logicalShape (inShapeInfos binaryA ! i) \<noteq> shape ([operandA, operandA] ! i))"
    by blast
  from runProgram_shape_mismatch [OF h, of ext1 "[]" operandA None] wf
  have 1: "\<exists>m. runProgram ext1 [] binaryA [?x] operandA None = (Some (ShapeMismatch m), [])"
    by simp
  from runProgram_shape_mismatch [OF h2, of ext1 "[]" operandA None] wf
  have 2: "\<exists>m. runProgram ext1 [] binaryA [operandA, operandA] operandA None
             = (Some (ShapeMismatch m), [])"
    by simp
  from ne wf len 1 2 show ?thesis by blast
qed

text \<open>
  C3. For an operand whose recorded and current logical shapes match: when the recorded
  \<open>ShapeInfo\<close> and the operand are both uniform-backed, the check of that operand
  succeeds, whatever the texture shapes; otherwise, when the current physical texture
  shape differs from the recorded one, \<open>runProgram\<close> raises a \<open>ShapeMismatch\<close> and
  leaves the context as it was (operands satisfying the data model's invariant).
\<close>

theorem validation_texture_shapes:
  assumes "i < length inputs" and "i < length (inShapeInfos binary)"
    and "logicalShape (inShapeInfos binary ! i) = shape (inputs ! i)"
  shows "(info_isUniform (inShapeInfos binary ! i) \<and> isUniform (inputs ! i) \<longrightarrow>
            validateOperand (inShapeInfos binary ! i) (inputs ! i) = None) \<and>
         (\<not> (info_isUniform (inShapeInfos binary ! i) \<and> isUniform (inputs ! i)) \<and>
          texShapeOf (inputs ! i) = Inr t \<and> info_texShape (inShapeInfos binary ! i) \<noteq> t \<and>
          (\<forall>x \<in> set inputs. wellFormed x) \<longrightarrow>
            (\<exists>m. runProgram ext gpgpu binary inputs output customSetup
                   = (Some (ShapeMismatch m), gpgpu)))"
proof (intro conjI impI)
  assume "info_isUniform (inShapeInfos binary ! i) \<and> isUniform (inputs ! i)"
  with assms(3) show "validateOperand (inShapeInfos binary ! i) (inputs ! i) = None"
    by (simp add: validateOperand_cases)
next
  assume a: "\<not> (info_isUniform (inShapeInfos binary ! i) \<and> isUniform (inputs ! i)) \<and>
          texShapeOf (inputs ! i) = Inr t \<and> info_texShape (inShapeInfos binary ! i) \<noteq> t \<and>
          (\<forall>x \<in> set inputs. wellFormed x)"
  let ?v = "validateBinaryAndProgram (inShapeInfos binary) inputs"
  have "\<exists>m. ?v = Some (ShapeMismatch m)"
  proof (cases "length inputs = length (inShapeInfos binary)")
    case False
    then show ?thesis by (auto simp: validateBinaryAndProgram_def)
  next
    case True
    from a assms(3) have "validateOperand (inShapeInfos binary ! i) (inputs ! i) \<noteq> None"
      by (auto simp: validateOperand_cases)
    with True assms(1) have "validateEach (inShapeInfos binary) inputs \<noteq> None"
      using validateEach_fails [of "inShapeInfos binary" inputs i] by simp
    moreover from a True have "validateEach (inShapeInfos binary) inputs = None \<or>
        (\<exists>m. validateEach (inShapeInfos binary) inputs = Some (ShapeMismatch m))"
      using validateEach_wellFormed [of inputs "inShapeInfos binary"] by simp
    ultimately show ?thesis using True by (auto simp: validateBinaryAndProgram_def)
  qed
  then show "\<exists>m. runProgram ext gpgpu binary inputs output customSetup
                   = (Some (ShapeMismatch m), gpgpu)"
    by (auto simp: runProgram_def)
qed

theorem validation_texture_shapes_witness:
  "(info_isUniform (inShapeInfos (binaryA \<lparr> inShapeInfos := [infoA \<lparr> info_isUniform := True \<rparr>] \<rparr>) ! 0)
      \<and> isUniform ([operandA \<lparr> isUniform := True \<rparr>] ! 0)) \<and>
   validateOperand (infoA \<lparr> info_isUniform := True \<rparr>) (operandA \<lparr> isUniform := True \<rparr>) = None \<and>
   \<not> (info_isUniform (inShapeInfos binaryA ! 0)
        \<and> isUniform ([operandA \<lparr> texData := Some (texA \<lparr> texShape := (5, 3) \<rparr>) \<rparr>] ! 0)) \<and>
   texShapeOf ([operandA \<lparr> texData := Some (texA \<lparr> texShape := (5, 3) \<rparr>) \<rparr>] ! 0) = Inr (Some (5, 3)) \<and>
   info_texShape (inShapeInfos binaryA ! 0) \<noteq> Some (5, 3) \<and>
   wellFormed (operandA \<lparr> texData := Some (texA \<lparr> texShape := (5, 3) \<rparr>) \<rparr>) \<and>
   (\<exists>m. runProgram ext1 [] binaryA [operandA \<lparr> texData := Some (texA \<lparr> texShape := (5, 3) \<rparr>) \<rparr>]
           operandA None = (Some (ShapeMismatch m), []))"
proof -
  let ?b = "binaryA \<lparr> inShapeInfos := [infoA \<lparr> info_isUniform := True \<rparr>] \<rparr>"
  let ?u = "operandA \<lparr> isUniform := True \<rparr>"
  let ?x = "operandA \<lparr> texData := Some (texA \<lparr> texShape := (5, 3) \<rparr>) \<rparr>"
  have u: "(0::nat) < length [?u]" "0 < length (inShapeInfos ?b)"
    "logicalShape (inShapeInfos ?b ! 0) = shape ([?u] ! 0)"
    by (simp_all add: binaryA_def infoA_def operandA_def)
  have x: "(0::nat) < length [?x]" "0 < length (inShapeInfos binaryA)"
    "logicalShape (inShapeInfos binaryA ! 0) = shape ([?x] ! 0)"
    by (simp_all add: binaryA_def infoA_def operandA_def)
  have facts: "info_isUniform (inShapeInfos ?b ! 0) \<and> isUniform ([?u] ! 0)"
    "\<not> (info_isUniform (inShapeInfos binaryA ! 0) \<and> isUniform ([?x] ! 0))"
    "texShapeOf ([?x] ! 0) = Inr (Some (5, 3))"
    "info_texShape (inShapeInfos binaryA ! 0) \<noteq> Some (5, 3)"
    "\<forall>y \<in> set [?x]. wellFormed y"
    by (simp_all add: binaryA_def infoA_def operandA_def texA_def texShapeOf_def wellFormed_def)
  from validation_texture_shapes [OF u] facts(1)
  have "validateOperand (inShapeInfos ?b ! 0) ([?u] ! 0) = None" by blast
  then have 1: "validateOperand (infoA \<lparr> info_isUniform := True \<rparr>) ?u = None" by simp
  from validation_texture_shapes [OF x, of "Some (5, 3)" ext1 "[]" operandA None] facts
  have 2: "\<exists>m. runProgram ext1 [] binaryA [?x] operandA None = (Some (ShapeMismatch m), [])"
    by blast
  from facts(5) have wf: "wellFormed ?x" by simp
  from 1 2 facts(1-4) wf show ?thesis by blast
qed

text \<open>
  C6. \<open>validateBinaryAndProgram\<close> accepts every list of operands that agree with the
  recorded \<open>ShapeInfo\<close>s on logical shape and on physical texture shape (or are both
  uniform-backed). Agreement says nothing of the packed flag or of the slice offset: the
  operands are accepted also when those differ, as in the instance below.
\<close>

theorem validation_ignores_packing_and_offset:
  assumes "list_all2 agrees shapeInfos inputs"
  shows "validateBinaryAndProgram shapeInfos inputs = None"
proof -
  have "validateOperand s x = None" if "agrees s x" for s x
    using that by (auto simp: agrees_def validateOperand_cases)
  with assms have "list_all2 (\<lambda>s x. validateOperand s x = None) shapeInfos inputs"
    by (auto elim: list_all2_mono)
  then have "validateEach shapeInfos inputs = None" by (rule validateEach_passes)
  moreover from assms have "length shapeInfos = length inputs" by (rule list_all2_lengthD)
  ultimately show ?thesis by (simp add: validateBinaryAndProgram_def)
qed

theorem validation_ignores_packing_and_offset_witness:
  "list_all2 agrees [infoA \<lparr> info_isPacked := True, info_flatOffset := Some 4 \<rparr>] [operandA] \<and>
   info_isPacked (infoA \<lparr> info_isPacked := True, info_flatOffset := Some 4 \<rparr>) \<noteq> isPacked texA \<and>
   \<not> hasOffset operandA \<and>
   validateBinaryAndProgram [infoA \<lparr> info_isPacked := True, info_flatOffset := Some 4 \<rparr>] [operandA]
     = None"
proof -
  have h: "list_all2 agrees [infoA \<lparr> info_isPacked := True, info_flatOffset := Some 4 \<rparr>] [operandA]"
    by (simp add: agrees_def infoA_def operandA_def texA_def texShapeOf_def)
  have "info_isPacked (infoA \<lparr> info_isPacked := True, info_flatOffset := Some 4 \<rparr>) \<noteq> isPacked texA"
    "\<not> hasOffset operandA"
    by (simp_all add: texA_def operandA_def hasOffset_def)
  with h validation_ignores_packing_and_offset [OF h] show ?thesis by blast
qed

section \<open>The operations a run issues\<close>

lemmas sample_defs = ext1_def texA_def operandA_def infoA_def progA_def binaryA_def opZero_def
  operandT_def uniformVec_def uniformOne_def hookA_def operandRow_def outputRow_def binaryRow_def
  asmA_def opS4_def opS8_def operandU_def uniformInts_def progABC_def binaryABC_def infoU_def
  binaryU_def

lemmas value_defs = firstValue_def elementsOf_def toFloat32Array_def froundInt_def
  froundNat_def excessBits.simps

lemma uploadUniform1ivVals_calls:
  "uploadUniform1ivVals g b n v = g @ calls1iv b n v"
  by (simp add: uploadUniform1ivVals_def calls1iv_def issue_def split: option.splits)

lemma uploadUniform1iVals_calls:
  "uploadUniform1iVals g b n v = g @ calls1i b n v"
  by (simp add: uploadUniform1iVals_def calls1i_def issue_def split: option.splits)

lemma uploadInput_texture:
  assumes "\<not> isUniform x" and "texData x = Some td"
    and "uniformLocations b (varNameAt b i) = Some varLoc"
  shows "uploadInput ext b x i g =
     (None, g @ layoutCalls ext b (varNameAt b i) (shaderShape ext b x) (texShape td) @
        (case slice td of None \<Rightarrow> []
         | Some sl \<Rightarrow> calls1i b (''offset'' @ varNameAt b i) (I (flatOffset sl))) @
        [SetInputMatrixTexture (texture td) varLoc i])"
  using assms
  by (simp add: uploadInput_def Let_def uploadUniform1ivVals_calls uploadUniform1iVals_calls
      layoutCalls_def issue_def split: option.splits)

lemma uploadInput_app:
  "uploadInput ext b x i g = (fst (uploadInput ext b x i []), g @ snd (uploadInput ext b x i []))"
  by (simp add: uploadInput_def Let_def uploadUniform1ivVals_calls uploadUniform1iVals_calls
      issue_def split: option.splits)

lemma uploadInputs_app:
  "uploadInputs ext b i xs g = (fst (uploadInputs ext b i xs []), g @ snd (uploadInputs ext b i xs []))"
proof (induction xs arbitrary: i g)
  case Nil
  then show ?case by simp
next
  case (Cons x xs)
  obtain e cs where r: "uploadInput ext b x i [] = (e, cs)" by (cases "uploadInput ext b x i []")
  then have g: "uploadInput ext b x i g = (e, g @ cs)" using uploadInput_app [of ext b x i g] by simp
  show ?case
  proof (cases e)
    case None
    with r g show ?thesis
      using Cons.IH [of "Suc i" "g @ cs"] Cons.IH [of "Suc i" cs] by simp
  next
    case (Some a)
    with r g show ?thesis by simp
  qed
qed

lemma uploadOutput_calls:
  "uploadOutput ext b out td g =
     g @ calls1iv b ''outputShape'' (shape out) @
         calls1iv b ''outputStrides'' (computeStrides ext (shape out)) @
         calls1iv b ''outputTexShape'' (arr (texShape td)) @
         calls1iv b ''outputPackedTexShape'' (packedTexShapeOf (texShape td)) @
         calls1i b ''outputTexelsInLogicalRow'' (valuesPerRowOf (shape out)) @
         calls1i b ''outputTexelsInBatch'' (texelsInBatchOf (shape out))"
  by (simp add: uploadOutput_def Let_def uploadUniform1ivVals_calls uploadUniform1iVals_calls)

lemma setSpecialUniforms_calls:
  "setSpecialUniforms ext b g =
     g @ (if WEBGL_VERSION ext = 1
          then (case infLoc b of None \<Rightarrow> [] | Some l \<Rightarrow> [Uniform1f l F_Infinity])
          else []) @
         (case nanLoc b of None \<Rightarrow> [] | Some l \<Rightarrow> [Uniform1f l F_NaN])"
  by (simp add: setSpecialUniforms_def Let_def issue_def split: option.splits)

lemma ceilHalf_div: "ceilHalf x = (x + 1) div 2"
  unfolding ceilHalf_def by linarith

lemma ceilHalf_real: "ceilHalf x = \<lceil>real_of_int x / 2\<rceil>"
  by (simp add: ceilHalf_def)

lemmas run_defs = runProgram_def validateBinaryAndProgram_def
      validateOperand_def texShapeOf_def arr_def Let_def issue_def setSpecialUniforms_def
      uploadInput_def uploadOutput_def uploadUniform1ivVals_def uploadUniform1iVals_def
      varNameAt_def templ_def idx_def shaderShape_def squeezeShape_def packedTexShapeOf_def
      valuesPerRowOf_def texelsInBatchOf_def ceilHalfOf_def times_def ceilHalf_div

lemma runProgram_unfold:
  assumes "validateBinaryAndProgram (inShapeInfos b) ins = None"
    and "validateBinaryAndProgram [outShapeInfo b] [out] = None"
    and "texData out = Some td"
  shows "runProgram ext g b ins out hook =
     (case fst (uploadInputs ext b 0 ins []) of
        Some e \<Rightarrow> (Some e, g @ [bindCall td, SetProgram (webGLProgram b)] @ specialCalls ext b @
                       snd (uploadInputs ext b 0 ins []))
      | None \<Rightarrow>
         (case hook of
            None \<Rightarrow> (None, g @ standardCalls ext b ins out td @ [ExecuteProgram])
          | Some h \<Rightarrow>
              (case h (g @ standardCalls ext b ins out td) (webGLProgram b) of
                 (Some e, cs) \<Rightarrow> (Some e, g @ standardCalls ext b ins out td @ cs)
               | (None, cs) \<Rightarrow> (None, g @ standardCalls ext b ins out td @ cs @ [ExecuteProgram]))))"
proof -
  obtain e cs where r: "uploadInputs ext b 0 ins [] = (e, cs)"
    by (cases "uploadInputs ext b 0 ins []")
  have app: "uploadInputs ext b 0 ins g' = (e, g' @ cs)" for g'
    using uploadInputs_app [of ext b 0 ins g'] r by simp
  show ?thesis
  proof (cases "isPacked td")
    case True
    with assms show ?thesis
      by (simp add: runProgram_def Let_def app r standardCalls_def uploadOutput_calls
          setSpecialUniforms_calls specialCalls_def bindCall_def
          outputCalls_def issue_def split: option.splits prod.splits)
  next
    case False
    with assms show ?thesis
      by (simp add: runProgram_def Let_def app r standardCalls_def uploadOutput_calls
          setSpecialUniforms_calls specialCalls_def bindCall_def
          outputCalls_def issue_def split: option.splits prod.splits)
  qed
qed

lemma runProgram_passed:
  assumes "fst (runProgram ext g b ins out hook) = None"
  shows "validateBinaryAndProgram (inShapeInfos b) ins = None \<and>
         validateBinaryAndProgram [outShapeInfo b] [out] = None \<and>
         (\<exists>td. texData out = Some td)"
  using assms by (auto simp: runProgram_def split: option.splits)

lemma runProgram_standard:
  assumes "fst (runProgram ext g b ins out hook) = None" and "texData out = Some td"
  shows "\<exists>post. snd (runProgram ext g b ins out hook) = g @ standardCalls ext b ins out td @ post"
proof -
  from runProgram_passed [OF assms(1)]
  have v: "validateBinaryAndProgram (inShapeInfos b) ins = None"
    "validateBinaryAndProgram [outShapeInfo b] [out] = None" by simp_all
  note u = runProgram_unfold [OF v assms(2), of ext g hook]
  from assms(1) u have "fst (uploadInputs ext b 0 ins []) = None"
    by (auto split: option.splits)
  with u show ?thesis by (auto split: option.splits prod.splits)
qed

lemma uploadInputs_blocks:
  "fst (uploadInputs ext b k xs []) = None \<Longrightarrow>
   snd (uploadInputs ext b k xs []) =
     concat (map (\<lambda>(i, x). inputCalls ext b x i) (enumerate k xs))"
proof (induction xs arbitrary: k)
  case Nil
  then show ?case by simp
next
  case (Cons x xs)
  obtain e cs where r: "uploadInput ext b x k [] = (e, cs)" by (cases "uploadInput ext b x k []")
  show ?case
  proof (cases e)
    case (Some a)
    with r Cons.prems show ?thesis by simp
  next
    case None
    have app: "uploadInputs ext b (Suc k) xs cs =
        (fst (uploadInputs ext b (Suc k) xs []), cs @ snd (uploadInputs ext b (Suc k) xs []))"
      by (rule uploadInputs_app)
    from None r Cons.prems app have ok: "fst (uploadInputs ext b (Suc k) xs []) = None" by simp
    from Cons.IH [OF ok] None r app show ?thesis by (simp add: inputCalls_def)
  qed
qed

lemma runProgram_blocks:
  assumes "fst (runProgram ext g b ins out hook) = None"
  shows "\<exists>td hcs. texData out = Some td \<and>
     snd (runProgram ext g b ins out hook) =
       g @ [bindCall td, SetProgram (webGLProgram b)] @ specialCalls ext b @
       concat (map (\<lambda>(i, x). inputCalls ext b x i) (enumerate 0 ins)) @
       (if shape out \<noteq> [] then outputCalls ext b out td else []) @ hcs @ [ExecuteProgram]"
proof -
  from runProgram_passed [OF assms] obtain td where
    v: "validateBinaryAndProgram (inShapeInfos b) ins = None"
       "validateBinaryAndProgram [outShapeInfo b] [out] = None"
    and td: "texData out = Some td" by auto
  note u = runProgram_unfold [OF v td, of ext g hook]
  from assms u have ins: "fst (uploadInputs ext b 0 ins []) = None"
    by (auto split: option.splits)
  note blocks = uploadInputs_blocks [OF ins]
  let ?std = "g @ standardCalls ext b ins out td"
  have "\<exists>hcs. snd (runProgram ext g b ins out hook) = ?std @ hcs @ [ExecuteProgram]"
  proof (cases hook)
    case None
    with u ins have "snd (runProgram ext g b ins out hook) = ?std @ [] @ [ExecuteProgram]" by simp
    then show ?thesis by blast
  next
    case (Some h)
    obtain e hcs where h: "h ?std (webGLProgram b) = (e, hcs)"
      by (cases "h ?std (webGLProgram b)")
    with assms u ins Some have "e = None" by (auto split: option.splits)
    with u ins Some h have "snd (runProgram ext g b ins out hook) = ?std @ hcs @ [ExecuteProgram]"
      by simp
    then show ?thesis by blast
  qed
  then obtain hcs where "snd (runProgram ext g b ins out hook) = ?std @ hcs @ [ExecuteProgram]" ..
  with blocks td show ?thesis by (auto simp: standardCalls_def)
qed

lemma varNameAt_nth:
  "i < length (variableNames (program b)) \<Longrightarrow> varNameAt b i = variableNames (program b) ! i"
  by (simp add: varNameAt_def templ_def idx_def)

text \<open>
  An operand whose slice has flat offset zero carries no nonzero offset, and the run
  uploads its offset uniform all the same (the operation \<open>Uniform1i 11 (I 0)\<close>).
\<close>

theorem offset_upload_zero_counterexample:
  "\<not> hasOffset opZero \<and>
   runProgram ext1 [] binaryA [opZero] operandA None =
     (None, [SetOutputMatrixTexture 7 3 5, SetProgram 1, Uniform1f 2 F_Infinity,
             Uniform1f 1 F_NaN, Uniform1iv 12 [2, 3], Uniform1i 13 (I 3),
             Uniform1i 11 (I 0), SetInputMatrixTexture 7 10 0, Uniform1iv 14 [2, 3],
             Uniform1i 15 (I 3), ExecuteProgram])"
  by (simp add: sample_defs hasOffset_def runProgram_def validateBinaryAndProgram_def
      validateOperand_def texShapeOf_def arr_def Let_def issue_def setSpecialUniforms_def
      uploadInput_def uploadOutput_def uploadUniform1ivVals_def uploadUniform1iVals_def
      varNameAt_def templ_def idx_def shaderShape_def squeezeShape_def packedTexShapeOf_def
      valuesPerRowOf_def texelsInBatchOf_def ceilHalfOf_def times_def ceilHalf_div)

text \<open>
  C4 (as amended). In a successful run the operations issued for the inputs are the
  blocks of the inputs one after the other, in the order of the inputs, between the special
  uniforms and the uploads of the output. The block of a texture-backed input whose
  primary location is resolved is: the six layout uploads, then the upload of the offset
  uniform exactly when the operand has a slice and the location \<open>offset<name>\<close> is
  resolved (the value is the slice's flat offset, zero included), then the texture
  binding. An operand with no slice gets no offset upload.
\<close>

theorem offset_upload_when_sliced:
  assumes "fst (runProgram ext gpgpu binary inputs output customSetup) = None"
  shows "(\<exists>td hcs. texData output = Some td \<and>
      snd (runProgram ext gpgpu binary inputs output customSetup) =
        gpgpu @ [bindCall td, SetProgram (webGLProgram binary)] @ specialCalls ext binary @
        concat (map (\<lambda>(i, input). inputCalls ext binary input i) (enumerate 0 inputs)) @
        (if shape output \<noteq> [] then outputCalls ext binary output td else []) @
        hcs @ [ExecuteProgram]) \<and>
     (i < length (variableNames (program binary)) \<and> \<not> isUniform input \<and>
      texData input = Some itd \<and>
      uniformLocations binary (variableNames (program binary) ! i) = Some varLoc \<longrightarrow>
        inputCalls ext binary input i =
          layoutCalls ext binary (variableNames (program binary) ! i)
            (shaderShape ext binary input) (texShape itd) @
          (case slice itd of
             None \<Rightarrow> []
           | Some sl \<Rightarrow>
              (case uniformLocations binary (''offset'' @ variableNames (program binary) ! i) of
                 None \<Rightarrow> []
               | Some l \<Rightarrow> [Uniform1i l (I (flatOffset sl))])) @
          [SetInputMatrixTexture (texture itd) varLoc i])"
proof (intro conjI impI)
  show "\<exists>td hcs. texData output = Some td \<and>
      snd (runProgram ext gpgpu binary inputs output customSetup) =
        gpgpu @ [bindCall td, SetProgram (webGLProgram binary)] @ specialCalls ext binary @
        concat (map (\<lambda>(i, input). inputCalls ext binary input i) (enumerate 0 inputs)) @
        (if shape output \<noteq> [] then outputCalls ext binary output td else []) @
        hcs @ [ExecuteProgram]"
    using assms by (rule runProgram_blocks)
next
  assume a: "i < length (variableNames (program binary)) \<and> \<not> isUniform input \<and>
      texData input = Some itd \<and>
      uniformLocations binary (variableNames (program binary) ! i) = Some varLoc"
  then have n: "varNameAt binary i = variableNames (program binary) ! i"
    by (simp add: varNameAt_nth)
  from a n have "uploadInput ext binary input i [] =
     (None, [] @ layoutCalls ext binary (varNameAt binary i) (shaderShape ext binary input) (texShape itd) @
        (case slice itd of None \<Rightarrow> []
         | Some sl \<Rightarrow> calls1i binary (''offset'' @ varNameAt binary i) (I (flatOffset sl))) @
        [SetInputMatrixTexture (texture itd) varLoc i])"
    using uploadInput_texture [of input itd binary i varLoc ext "[]"] by simp
  then show "inputCalls ext binary input i =
          layoutCalls ext binary (variableNames (program binary) ! i)
            (shaderShape ext binary input) (texShape itd) @
          (case slice itd of
             None \<Rightarrow> []
           | Some sl \<Rightarrow>
              (case uniformLocations binary (''offset'' @ variableNames (program binary) ! i) of
                 None \<Rightarrow> []
               | Some l \<Rightarrow> [Uniform1i l (I (flatOffset sl))])) @
          [SetInputMatrixTexture (texture itd) varLoc i]"
    by (simp add: inputCalls_def n calls1i_def split: option.splits)
qed

theorem offset_upload_when_sliced_witness:
  "fst (runProgram ext1 [] binaryABC [operandA, opS4, opZero] operandA None) = None \<and>
   snd (runProgram ext1 [] binaryABC [operandA, opS4, opZero] operandA None) =
     [SetOutputMatrixTexture 7 3 5, SetProgram 1, Uniform1f 2 F_Infinity, Uniform1f 1 F_NaN,
      SetInputMatrixTexture 7 10 0,
      Uniform1i 21 (I 4), SetInputMatrixTexture 7 20 1,
      Uniform1i 31 (I 0), SetInputMatrixTexture 7 30 2,
      ExecuteProgram] \<and>
   variableNames (program binaryABC) = [''A'', ''B'', ''C''] \<and>
   \<not> isUniform operandA \<and> texData operandA = Some texA \<and> slice texA = None \<and>
   uniformLocations binaryABC ''A'' = Some 10 \<and>
   inputCalls ext1 binaryABC operandA 0 = [SetInputMatrixTexture 7 10 0] \<and>
   \<not> isUniform opS4 \<and>
   texData opS4 = Some (texA \<lparr> slice := Some \<lparr> flatOffset = 4 \<rparr> \<rparr>) \<and>
   uniformLocations binaryABC ''B'' = Some 20 \<and>
   inputCalls ext1 binaryABC opS4 1 = [Uniform1i 21 (I 4), SetInputMatrixTexture 7 20 1] \<and>
   \<not> isUniform opZero \<and>
   texData opZero = Some (texA \<lparr> slice := Some \<lparr> flatOffset = 0 \<rparr> \<rparr>) \<and>
   uniformLocations binaryABC ''C'' = Some 30 \<and>
   inputCalls ext1 binaryABC opZero 2 = [Uniform1i 31 (I 0), SetInputMatrixTexture 7 30 2]"
proof -
  have ok: "fst (runProgram ext1 [] binaryABC [operandA, opS4, opZero] operandA None) = None"
    by (simp add: sample_defs run_defs)
  have tr: "snd (runProgram ext1 [] binaryABC [operandA, opS4, opZero] operandA None) =
     [SetOutputMatrixTexture 7 3 5, SetProgram 1, Uniform1f 2 F_Infinity, Uniform1f 1 F_NaN,
      SetInputMatrixTexture 7 10 0,
      Uniform1i 21 (I 4), SetInputMatrixTexture 7 20 1,
      Uniform1i 31 (I 0), SetInputMatrixTexture 7 30 2,
      ExecuteProgram]"
    by (simp add: sample_defs run_defs)
  have names: "variableNames (program binaryABC) = [''A'', ''B'', ''C'']"
    by (simp add: sample_defs)
  have a: "\<not> isUniform operandA" "texData operandA = Some texA" "slice texA = None"
    "uniformLocations binaryABC ''A'' = Some 10"
    by (simp_all add: sample_defs)
  have b: "\<not> isUniform opS4" "texData opS4 = Some (texA \<lparr> slice := Some \<lparr> flatOffset = 4 \<rparr> \<rparr>)"
    "uniformLocations binaryABC ''B'' = Some 20"
    by (simp_all add: sample_defs)
  have c: "\<not> isUniform opZero" "texData opZero = Some (texA \<lparr> slice := Some \<lparr> flatOffset = 0 \<rparr> \<rparr>)"
    "uniformLocations binaryABC ''C'' = Some 30"
    by (simp_all add: sample_defs)
  have lay: "layoutCalls ext1 binaryABC n shp t = []" for n shp t
    by (simp add: layoutCalls_def calls1iv_def calls1i_def sample_defs)
  have off: "uniformLocations binaryABC ''offsetA'' = Some 11"
    "uniformLocations binaryABC ''offsetB'' = Some 21"
    "uniformLocations binaryABC ''offsetC'' = Some 31"
    by (simp_all add: sample_defs)
  have tex: "texture texA = 7" by (simp add: texA_def)
  note t = offset_upload_when_sliced [OF ok]
  from t [of 0 operandA texA 10] names a
  have 1: "inputCalls ext1 binaryABC operandA 0 = [SetInputMatrixTexture 7 10 0]"
    by (simp add: lay tex)
  from t [of 1 opS4 "texA \<lparr> slice := Some \<lparr> flatOffset = 4 \<rparr> \<rparr>" 20] names b
  have 2: "inputCalls ext1 binaryABC opS4 1 = [Uniform1i 21 (I 4), SetInputMatrixTexture 7 20 1]"
    by (simp add: lay tex off)
  from t [of 2 opZero "texA \<lparr> slice := Some \<lparr> flatOffset = 0 \<rparr> \<rparr>" 30] names c
  have 3: "inputCalls ext1 binaryABC opZero 2 = [Uniform1i 31 (I 0), SetInputMatrixTexture 7 30 2]"
    by (simp add: lay tex off)
  from ok tr names a b c 1 2 3 show ?thesis by simp
qed

text \<open>
  C5. The packed texture shape of a texture shape \<open>(h, w)\<close> is
  \<open>(ceil (h / 2), ceil (w / 2))\<close>. For a texture-backed input it is uploaded at the
  location \<open>packedTexShape<name>\<close> when that and the primary location are resolved; for a
  non-scalar output of a successful run it is uploaded at \<open>outputPackedTexShape\<close> when
  that location is resolved. The uploads of the output do not depend on
  \<open>usesPackedTextures\<close>: nothing is assumed of it, and changing it changes nothing.
\<close>

theorem packed_tex_shape:
  "packedTexShapeOf (h, w) = [\<lceil>real_of_int h / 2\<rceil>, \<lceil>real_of_int w / 2\<rceil>] \<and>
   (\<not> isUniform input \<and> texData input = Some td \<and>
    uniformLocations binary (varNameAt binary i) = Some varLoc \<and>
    uniformLocations binary (''packedTexShape'' @ varNameAt binary i) = Some l \<longrightarrow>
      (\<exists>pre post. uploadInput ext binary input i gpgpu =
         (None, gpgpu @ pre @ [Uniform1iv l (packedTexShapeOf (texShape td))] @ post))) \<and>
   uploadOutput ext (binary \<lparr> program := (program binary) \<lparr> usesPackedTextures := u \<rparr> \<rparr>) output otd gpgpu
     = uploadOutput ext binary output otd gpgpu \<and>
   (fst (runProgram ext gpgpu binary inputs output customSetup) = None \<and> shape output \<noteq> [] \<and>
    texData output = Some otd \<and> uniformLocations binary ''outputPackedTexShape'' = Some ol \<longrightarrow>
      (\<exists>pre post. snd (runProgram ext gpgpu binary inputs output customSetup) =
         gpgpu @ pre @ [Uniform1iv ol (packedTexShapeOf (texShape otd))] @ post))"
proof (intro conjI impI)
  show "packedTexShapeOf (h, w) = [\<lceil>real_of_int h / 2\<rceil>, \<lceil>real_of_int w / 2\<rceil>]"
    by (simp add: packedTexShapeOf_def ceilHalf_real)
next
  assume a: "\<not> isUniform input \<and> texData input = Some td \<and>
    uniformLocations binary (varNameAt binary i) = Some varLoc \<and>
    uniformLocations binary (''packedTexShape'' @ varNameAt binary i) = Some l"
  then have "uploadInput ext binary input i gpgpu =
     (None, gpgpu @ layoutCalls ext binary (varNameAt binary i) (shaderShape ext binary input) (texShape td) @
        (case slice td of None \<Rightarrow> []
         | Some sl \<Rightarrow> calls1i binary (''offset'' @ varNameAt binary i) (I (flatOffset sl))) @
        [SetInputMatrixTexture (texture td) varLoc i])"
    using uploadInput_texture [of input td binary i varLoc ext gpgpu] by simp
  moreover from a have "calls1iv binary (''packedTexShape'' @ varNameAt binary i) (packedTexShapeOf (texShape td))
      = [Uniform1iv l (packedTexShapeOf (texShape td))]"
    by (simp add: calls1iv_def)
  ultimately have "uploadInput ext binary input i gpgpu =
     (None, gpgpu @
        (calls1iv binary (''shape'' @ varNameAt binary i) (shaderShape ext binary input) @
         calls1iv binary (''strides'' @ varNameAt binary i)
           (computeStrides ext (shaderShape ext binary input)) @
         calls1iv binary (''texShape'' @ varNameAt binary i) (arr (texShape td))) @
        [Uniform1iv l (packedTexShapeOf (texShape td))] @
        (calls1i binary (''valuesPerRow'' @ varNameAt binary i)
           (valuesPerRowOf (shaderShape ext binary input)) @
         calls1i binary (''texelsInBatch'' @ varNameAt binary i)
           (texelsInBatchOf (shaderShape ext binary input)) @
         (case slice td of None \<Rightarrow> []
          | Some sl \<Rightarrow> calls1i binary (''offset'' @ varNameAt binary i) (I (flatOffset sl))) @
         [SetInputMatrixTexture (texture td) varLoc i]))"
    by (simp add: layoutCalls_def)
  then show "\<exists>pre post. uploadInput ext binary input i gpgpu =
         (None, gpgpu @ pre @ [Uniform1iv l (packedTexShapeOf (texShape td))] @ post)"
    by blast
next
  show "uploadOutput ext (binary \<lparr> program := (program binary) \<lparr> usesPackedTextures := u \<rparr> \<rparr>) output otd gpgpu
     = uploadOutput ext binary output otd gpgpu"
    by (simp add: uploadOutput_def uploadUniform1ivVals_def uploadUniform1iVals_def)
next
  assume a: "fst (runProgram ext gpgpu binary inputs output customSetup) = None \<and> shape output \<noteq> [] \<and>
    texData output = Some otd \<and> uniformLocations binary ''outputPackedTexShape'' = Some ol"
  then obtain post where p: "snd (runProgram ext gpgpu binary inputs output customSetup)
      = gpgpu @ standardCalls ext binary inputs output otd @ post"
    using runProgram_standard [of ext gpgpu binary inputs "output" customSetup otd] by auto
  from a have "calls1iv binary ''outputPackedTexShape'' (packedTexShapeOf (texShape otd))
      = [Uniform1iv ol (packedTexShapeOf (texShape otd))]"
    by (simp add: calls1iv_def)
  with a have "standardCalls ext binary inputs output otd =
      ([bindCall otd, SetProgram (webGLProgram binary)] @ specialCalls ext binary @
       snd (uploadInputs ext binary 0 inputs []) @
       calls1iv binary ''outputShape'' (shape output) @
       calls1iv binary ''outputStrides'' (computeStrides ext (shape output)) @
       calls1iv binary ''outputTexShape'' (arr (texShape otd))) @
      [Uniform1iv ol (packedTexShapeOf (texShape otd))] @
      (calls1i binary ''outputTexelsInLogicalRow'' (valuesPerRowOf (shape output)) @
       calls1i binary ''outputTexelsInBatch'' (texelsInBatchOf (shape output)))"
    by (simp add: standardCalls_def outputCalls_def)
  with p have "snd (runProgram ext gpgpu binary inputs output customSetup) =
      gpgpu @
      ([bindCall otd, SetProgram (webGLProgram binary)] @ specialCalls ext binary @
       snd (uploadInputs ext binary 0 inputs []) @
       calls1iv binary ''outputShape'' (shape output) @
       calls1iv binary ''outputStrides'' (computeStrides ext (shape output)) @
       calls1iv binary ''outputTexShape'' (arr (texShape otd))) @
      [Uniform1iv ol (packedTexShapeOf (texShape otd))] @
      ((calls1i binary ''outputTexelsInLogicalRow'' (valuesPerRowOf (shape output)) @
       calls1i binary ''outputTexelsInBatch'' (texelsInBatchOf (shape output))) @ post)"
    by simp
  then show "\<exists>pre post. snd (runProgram ext gpgpu binary inputs output customSetup) =
         gpgpu @ pre @ [Uniform1iv ol (packedTexShapeOf (texShape otd))] @ post"
    by blast
qed

theorem packed_tex_shape_witness:
  "\<not> isUniform operandA \<and> texData operandA = Some texA \<and>
   uniformLocations binaryA (varNameAt binaryA 0) = Some 10 \<and>
   uniformLocations binaryA (''packedTexShape'' @ varNameAt binaryA 0) = Some 12 \<and>
   (\<exists>pre post. uploadInput ext1 binaryA operandA 0 [] =
       (None, pre @ [Uniform1iv 12 [2, 3]] @ post)) \<and>
   fst (runProgram ext1 [] binaryA [operandA] operandA None) = None \<and>
   shape operandA \<noteq> [] \<and> \<not> usesPackedTextures (program binaryA) \<and>
   uniformLocations binaryA ''outputPackedTexShape'' = Some 14 \<and>
   (\<exists>pre post. snd (runProgram ext1 [] binaryA [operandA] operandA None) =
       pre @ [Uniform1iv 14 [2, 3]] @ post)"
proof -
  have i: "\<not> isUniform operandA \<and> texData operandA = Some texA \<and>
      uniformLocations binaryA (varNameAt binaryA 0) = Some 10 \<and>
      uniformLocations binaryA (''packedTexShape'' @ varNameAt binaryA 0) = Some 12"
    by (simp add: sample_defs varNameAt_def templ_def idx_def)
  have ok: "fst (runProgram ext1 [] binaryA [operandA] operandA None) = None"
    by (simp add: sample_defs run_defs)
  have o: "fst (runProgram ext1 [] binaryA [operandA] operandA None) = None \<and>
      shape operandA \<noteq> [] \<and> texData operandA = Some texA \<and>
      uniformLocations binaryA ''outputPackedTexShape'' = Some 14"
    using ok by (simp add: sample_defs)
  have p: "packedTexShapeOf (texShape texA) = [2, 3]"
    by (simp add: texA_def packedTexShapeOf_def ceilHalf_div)
  have np: "\<not> usesPackedTextures (program binaryA)" by (simp add: sample_defs)
  note t = packed_tex_shape [of 3 5 operandA texA binaryA 0 10 12 ext1 "[]" False operandA texA
      "[operandA]" None 14]
  from t i have 1: "\<exists>pre post. uploadInput ext1 binaryA operandA 0 [] =
       (None, pre @ [Uniform1iv 12 [2, 3]] @ post)"
    unfolding p by simp
  from t o have 2: "\<exists>pre post. snd (runProgram ext1 [] binaryA [operandA] operandA None) =
       pre @ [Uniform1iv 14 [2, 3]] @ post"
    unfolding p by simp
  from i o np 1 2 show ?thesis by simp
qed

lemma sizeFromShape_prod: "sizeFromShape s = prod_list s"
  by (induction s) simp_all

text \<open>
  C8. In a successful run the operations issued for the inputs are the blocks of the
  inputs one after the other. The block of a uniform-backed input with values, whose
  primary location is resolved, is one operation: \<open>uniform1f\<close> with the first value
  when the product of the logical shape is below 2, \<open>uniform1fv\<close> with the values as a
  \<open>Float32Array\<close> otherwise (the values themselves when they are one already).
\<close>

theorem uniform_scalar_or_vector:
  assumes "fst (runProgram ext gpgpu binary inputs output customSetup) = None"
  shows "(\<exists>td hcs. texData output = Some td \<and>
      snd (runProgram ext gpgpu binary inputs output customSetup) =
        gpgpu @ [bindCall td, SetProgram (webGLProgram binary)] @ specialCalls ext binary @
        concat (map (\<lambda>(i, input). inputCalls ext binary input i) (enumerate 0 inputs)) @
        (if shape output \<noteq> [] then outputCalls ext binary output td else []) @
        hcs @ [ExecuteProgram]) \<and>
     (i < length (variableNames (program binary)) \<and> isUniform input \<and>
      uniformValues input = Some vals \<and>
      uniformLocations binary (variableNames (program binary) ! i) = Some varLoc \<longrightarrow>
        inputCalls ext binary input i =
          [if prod_list (shape input) < 2
           then Uniform1f varLoc (firstValue vals)
           else Uniform1fv varLoc (toFloat32Array (Some vals))]) \<and>
     firstValue (Float32Array (v # vs)) = F v \<and>
     toFloat32Array (Some (Float32Array xs)) = xs"
proof (intro conjI impI)
  show "\<exists>td hcs. texData output = Some td \<and>
      snd (runProgram ext gpgpu binary inputs output customSetup) =
        gpgpu @ [bindCall td, SetProgram (webGLProgram binary)] @ specialCalls ext binary @
        concat (map (\<lambda>(i, input). inputCalls ext binary input i) (enumerate 0 inputs)) @
        (if shape output \<noteq> [] then outputCalls ext binary output td else []) @
        hcs @ [ExecuteProgram]"
    using assms by (rule runProgram_blocks)
next
  assume a: "i < length (variableNames (program binary)) \<and> isUniform input \<and>
      uniformValues input = Some vals \<and>
      uniformLocations binary (variableNames (program binary) ! i) = Some varLoc"
  then have n: "varNameAt binary i = variableNames (program binary) ! i"
    by (simp add: varNameAt_nth)
  with a show "inputCalls ext binary input i =
          [if prod_list (shape input) < 2
           then Uniform1f varLoc (firstValue vals)
           else Uniform1fv varLoc (toFloat32Array (Some vals))]"
    by (simp add: inputCalls_def uploadInput_def Let_def issue_def sizeFromShape_prod)
next
  show "firstValue (Float32Array (v # vs)) = F v"
    by (simp add: firstValue_def elementsOf_def)
next
  show "toFloat32Array (Some (Float32Array xs)) = xs"
    by (simp add: toFloat32Array_def)
qed

theorem uniform_scalar_or_vector_witness:
  "fst (runProgram ext1 [] binaryU [uniformVec, uniformOne, uniformInts] operandA None) = None \<and>
   snd (runProgram ext1 [] binaryU [uniformVec, uniformOne, uniformInts] operandA None) =
     [SetOutputMatrixTexture 7 3 5, SetProgram 1, Uniform1f 2 F_Infinity, Uniform1f 1 F_NaN,
      Uniform1fv 10 [1, 2, 3, 4], Uniform1f 20 (F 7), Uniform1fv 30 [16777216, 3],
      ExecuteProgram] \<and>
   variableNames (program binaryU) = [''A'', ''B'', ''C''] \<and>
   isUniform uniformVec \<and> shape uniformVec = [1, 4] \<and>
   uniformValues uniformVec = Some (Float32Array [1, 2, 3, 4]) \<and>
   uniformLocations binaryU ''A'' = Some 10 \<and>
   inputCalls ext1 binaryU uniformVec 0 = [Uniform1fv 10 [1, 2, 3, 4]] \<and>
   isUniform uniformOne \<and> shape uniformOne = [1, 1] \<and>
   uniformValues uniformOne = Some (Float32Array [7]) \<and>
   uniformLocations binaryU ''B'' = Some 20 \<and>
   inputCalls ext1 binaryU uniformOne 1 = [Uniform1f 20 (F 7)] \<and>
   isUniform uniformInts \<and> shape uniformInts = [2] \<and>
   uniformValues uniformInts = Some (Int32Array [16777217, 3]) \<and>
   uniformLocations binaryU ''C'' = Some 30 \<and>
   inputCalls ext1 binaryU uniformInts 2 = [Uniform1fv 30 [16777216, 3]]"
proof -
  have ok: "fst (runProgram ext1 [] binaryU [uniformVec, uniformOne, uniformInts] operandA None) = None"
    by (simp add: sample_defs run_defs value_defs)
  have tr: "snd (runProgram ext1 [] binaryU [uniformVec, uniformOne, uniformInts] operandA None) =
     [SetOutputMatrixTexture 7 3 5, SetProgram 1, Uniform1f 2 F_Infinity, Uniform1f 1 F_NaN,
      Uniform1fv 10 [1, 2, 3, 4], Uniform1f 20 (F 7), Uniform1fv 30 [16777216, 3],
      ExecuteProgram]"
    by (simp add: sample_defs run_defs value_defs)
  have names: "variableNames (program binaryU) = [''A'', ''B'', ''C'']"
    by (simp add: sample_defs)
  have a: "isUniform uniformVec" "shape uniformVec = [1, 4]"
    "uniformValues uniformVec = Some (Float32Array [1, 2, 3, 4])"
    "uniformLocations binaryU ''A'' = Some 10"
    by (simp_all add: sample_defs)
  have b: "isUniform uniformOne" "shape uniformOne = [1, 1]"
    "uniformValues uniformOne = Some (Float32Array [7])"
    "uniformLocations binaryU ''B'' = Some 20"
    by (simp_all add: sample_defs)
  have c: "isUniform uniformInts" "shape uniformInts = [2]"
    "uniformValues uniformInts = Some (Int32Array [16777217, 3])"
    "uniformLocations binaryU ''C'' = Some 30"
    by (simp_all add: sample_defs)
  have r: "toFloat32Array (Some (Int32Array [16777217, 3])) = [16777216, 3]"
    by (simp add: toFloat32Array_def froundInt_def froundNat_def excessBits.simps Let_def)
  note t = uniform_scalar_or_vector [OF ok]
  from t [of 0 uniformVec "Float32Array [1, 2, 3, 4]" 10] names a
  have 1: "inputCalls ext1 binaryU uniformVec 0 = [Uniform1fv 10 [1, 2, 3, 4]]"
    by (simp add: toFloat32Array_def)
  from t [of 1 uniformOne "Float32Array [7]" 20] names b
  have 2: "inputCalls ext1 binaryU uniformOne 1 = [Uniform1f 20 (F 7)]"
    by (simp add: firstValue_def elementsOf_def)
  from t [of 2 uniformInts "Int32Array [16777217, 3]" 30] names c
  have 3: "inputCalls ext1 binaryU uniformInts 2 = [Uniform1fv 30 [16777216, 3]]"
    by (simp add: r)
  from ok tr names a b c 1 2 3 show ?thesis by simp
qed

lemma fold_record_write: "fold record_write cs m = m ++ fold record_write cs Map.empty"
proof (induction cs arbitrary: m)
  case Nil
  then show ?case by simp
next
  case (Cons c cs)
  have step: "record_write c m = m ++ record_write c Map.empty"
    by (auto simp: record_write_def split: option.splits)
  show ?case
    using Cons.IH [of "record_write c m"] Cons.IH [of "record_write c Map.empty"]
    by (simp add: step)
qed

lemma uniformsOf_append: "uniformsOf (a @ b) = uniformsOf a ++ uniformsOf b"
  using fold_record_write [of b "fold record_write a Map.empty"]
  by (simp add: uniformsOf_def)

text \<open>
  C9. In a successful run the hook is called on the context that holds every standard
  operation (binding, program, special uniforms, inputs, output), the operations it issues
  follow them, and the dispatch is the last operation. So at every location the hook
  uploads to, the value the dispatch observes is the hook's.
\<close>

theorem hook_after_uploads_before_dispatch:
  assumes "runProgram ext gpgpu binary inputs output customSetup = (None, g')"
  shows "\<exists>td hcs. texData output = Some td \<and>
     (case customSetup of
        None \<Rightarrow> hcs = []
      | Some hook \<Rightarrow>
          hook (gpgpu @ standardCalls ext binary inputs output td) (webGLProgram binary) = (None, hcs)) \<and>
     g' = gpgpu @ standardCalls ext binary inputs output td @ hcs @ [ExecuteProgram] \<and>
     (\<forall>l v. uniformsOf hcs l = Some v \<longrightarrow>
        uniformsOf (gpgpu @ standardCalls ext binary inputs output td @ hcs) l = Some v)"
proof -
  from assms have ok: "fst (runProgram ext gpgpu binary inputs output customSetup) = None" by simp
  from runProgram_passed [OF ok] obtain td where
    v: "validateBinaryAndProgram (inShapeInfos binary) inputs = None"
       "validateBinaryAndProgram [outShapeInfo binary] [output] = None"
    and td: "texData output = Some td" by auto
  note u = runProgram_unfold [OF v td, of ext gpgpu customSetup]
  let ?std = "gpgpu @ standardCalls ext binary inputs output td"
  from assms u have ins: "fst (uploadInputs ext binary 0 inputs []) = None"
    by (auto split: option.splits)
  have ov: "uniformsOf (?std @ hcs) l = Some v" if "uniformsOf hcs l = Some v" for hcs l v
    using that by (simp add: uniformsOf_append)
  show ?thesis
  proof (cases customSetup)
    case None
    with assms u ins have "g' = ?std @ [] @ [ExecuteProgram]" by simp
    with None td ov [of "[]"] show ?thesis by auto
  next
    case (Some hook)
    obtain e hcs where h: "hook ?std (webGLProgram binary) = (e, hcs)"
      by (cases "hook ?std (webGLProgram binary)")
    with assms u ins Some have "e = None" and "g' = ?std @ hcs @ [ExecuteProgram]"
      by (auto split: option.splits)
    with Some td h ov [of hcs] show ?thesis by auto
  qed
qed

theorem hook_after_uploads_before_dispatch_witness:
  "runProgram ext1 [] binaryA [operandA] operandA (Some hookA) =
     (None, [SetOutputMatrixTexture 7 3 5, SetProgram 1, Uniform1f 2 F_Infinity,
             Uniform1f 1 F_NaN, Uniform1iv 12 [2, 3], Uniform1i 13 (I 3),
             SetInputMatrixTexture 7 10 0, Uniform1iv 14 [2, 3], Uniform1i 15 (I 3),
             Uniform1f 1 (F 0), ExecuteProgram]) \<and>
   uniformsOf [SetOutputMatrixTexture 7 3 5, SetProgram 1, Uniform1f 2 F_Infinity,
             Uniform1f 1 F_NaN, Uniform1iv 12 [2, 3], Uniform1i 13 (I 3),
             SetInputMatrixTexture 7 10 0, Uniform1iv 14 [2, 3], Uniform1i 15 (I 3),
             Uniform1f 1 (F 0)] 1 = Some (UFloat (F 0))"
proof -
  let ?T = "[SetOutputMatrixTexture 7 3 5, SetProgram 1, Uniform1f 2 F_Infinity,
             Uniform1f 1 F_NaN, Uniform1iv 12 [2, 3], Uniform1i 13 (I 3),
             SetInputMatrixTexture 7 10 0, Uniform1iv 14 [2, 3], Uniform1i 15 (I 3),
             Uniform1f 1 (F 0)]"
  have run: "runProgram ext1 [] binaryA [operandA] operandA (Some hookA) = (None, ?T @ [ExecuteProgram])"
    by (simp add: sample_defs run_defs)
  from hook_after_uploads_before_dispatch [OF run] obtain td hcs where
    h: "hookA ([] @ standardCalls ext1 binaryA [operandA] operandA td) (webGLProgram binaryA) = (None, hcs)"
    and t: "?T @ [ExecuteProgram] = [] @ standardCalls ext1 binaryA [operandA] operandA td @ hcs @ [ExecuteProgram]"
    and o: "\<forall>l v. uniformsOf hcs l = Some v \<longrightarrow>
        uniformsOf ([] @ standardCalls ext1 binaryA [operandA] operandA td @ hcs) l = Some v"
    by auto
  from h have hcs: "hcs = [Uniform1f 1 (F 0)]" by (simp add: hookA_def)
  then have "uniformsOf hcs 1 = Some (UFloat (F 0))"
    by (simp add: uniformsOf_def record_write_def)
  with o have "uniformsOf ([] @ standardCalls ext1 binaryA [operandA] operandA td @ hcs) 1
      = Some (UFloat (F 0))" by blast
  moreover from t have "?T = [] @ standardCalls ext1 binaryA [operandA] operandA td @ hcs"
    by (metis append.assoc append_same_eq)
  ultimately have "uniformsOf ?T 1 = Some (UFloat (F 0))" by simp
  with run show ?thesis by simp
qed

text \<open>
  C10. For a shape of rank 1 the read at index \<open>rank - 2\<close> is outside the array and
  yields no element, and the texels-per-batch value computed from it is not a number.
  That value is what is uploaded for a texture-backed input whose shader-visible shape has
  rank 1, and for an output of rank 1, when the location is resolved.
\<close>

theorem texels_in_batch_rank_one:
  "(length shp = 1 \<longrightarrow>
      idx shp (int (length shp) - 2) = None \<and> texelsInBatchOf shp = I_NaN) \<and>
   (\<not> isUniform input \<and> texData input = Some td \<and>
    uniformLocations binary (varNameAt binary i) = Some varLoc \<and>
    uniformLocations binary (''texelsInBatch'' @ varNameAt binary i) = Some l \<and>
    length (shaderShape ext binary input) = 1 \<longrightarrow>
      (\<exists>pre post. uploadInput ext binary input i gpgpu =
         (None, gpgpu @ pre @ [Uniform1i l I_NaN] @ post))) \<and>
   (fst (runProgram ext gpgpu binary inputs output customSetup) = None \<and>
    length (shape output) = 1 \<and>
    uniformLocations binary ''outputTexelsInBatch'' = Some ol \<longrightarrow>
      (\<exists>pre post. snd (runProgram ext gpgpu binary inputs output customSetup) =
         gpgpu @ pre @ [Uniform1i ol I_NaN] @ post))"
proof (intro conjI impI)
  have nan: "texelsInBatchOf s = I_NaN" if "length s = 1" for s
    using that by (simp add: texelsInBatchOf_def idx_def ceilHalfOf_def times_def split: i32.splits)
  {
    assume "length shp = 1"
    then show "idx shp (int (length shp) - 2) = None" by (simp add: idx_def)
    from \<open>length shp = 1\<close> show "texelsInBatchOf shp = I_NaN" by (rule nan)
  }
  {
    assume a: "\<not> isUniform input \<and> texData input = Some td \<and>
      uniformLocations binary (varNameAt binary i) = Some varLoc \<and>
      uniformLocations binary (''texelsInBatch'' @ varNameAt binary i) = Some l \<and>
      length (shaderShape ext binary input) = 1"
    then have c: "calls1i binary (''texelsInBatch'' @ varNameAt binary i)
        (texelsInBatchOf (shaderShape ext binary input)) = [Uniform1i l I_NaN]"
      by (simp add: calls1i_def nan)
    from a have "uploadInput ext binary input i gpgpu =
       (None, gpgpu @ layoutCalls ext binary (varNameAt binary i) (shaderShape ext binary input) (texShape td) @
          (case slice td of None \<Rightarrow> []
           | Some sl \<Rightarrow> calls1i binary (''offset'' @ varNameAt binary i) (I (flatOffset sl))) @
          [SetInputMatrixTexture (texture td) varLoc i])"
      using uploadInput_texture [of input td binary i varLoc ext gpgpu] by simp
    with c have "uploadInput ext binary input i gpgpu =
       (None, gpgpu @
          (calls1iv binary (''shape'' @ varNameAt binary i) (shaderShape ext binary input) @
           calls1iv binary (''strides'' @ varNameAt binary i)
             (computeStrides ext (shaderShape ext binary input)) @
           calls1iv binary (''texShape'' @ varNameAt binary i) (arr (texShape td)) @
           calls1iv binary (''packedTexShape'' @ varNameAt binary i) (packedTexShapeOf (texShape td)) @
           calls1i binary (''valuesPerRow'' @ varNameAt binary i)
             (valuesPerRowOf (shaderShape ext binary input))) @
          [Uniform1i l I_NaN] @
          ((case slice td of None \<Rightarrow> []
            | Some sl \<Rightarrow> calls1i binary (''offset'' @ varNameAt binary i) (I (flatOffset sl))) @
           [SetInputMatrixTexture (texture td) varLoc i]))"
      by (simp add: layoutCalls_def)
    then show "\<exists>pre post. uploadInput ext binary input i gpgpu =
         (None, gpgpu @ pre @ [Uniform1i l I_NaN] @ post)" by blast
  }
  {
    assume a: "fst (runProgram ext gpgpu binary inputs output customSetup) = None \<and>
      length (shape output) = 1 \<and> uniformLocations binary ''outputTexelsInBatch'' = Some ol"
    from a runProgram_passed [of ext gpgpu binary inputs "output" customSetup]
    obtain otd where otd: "texData output = Some otd" by auto
    from a otd obtain post where p: "snd (runProgram ext gpgpu binary inputs output customSetup)
        = gpgpu @ standardCalls ext binary inputs output otd @ post"
      using runProgram_standard [of ext gpgpu binary inputs "output" customSetup otd] by auto
    from a have c: "calls1i binary ''outputTexelsInBatch'' (texelsInBatchOf (shape output))
        = [Uniform1i ol I_NaN]"
      by (simp add: calls1i_def nan)
    from a have ne: "shape output \<noteq> []" by auto
    from c ne have "standardCalls ext binary inputs output otd =
        ([bindCall otd, SetProgram (webGLProgram binary)] @ specialCalls ext binary @
         snd (uploadInputs ext binary 0 inputs []) @
         calls1iv binary ''outputShape'' (shape output) @
         calls1iv binary ''outputStrides'' (computeStrides ext (shape output)) @
         calls1iv binary ''outputTexShape'' (arr (texShape otd)) @
         calls1iv binary ''outputPackedTexShape'' (packedTexShapeOf (texShape otd)) @
         calls1i binary ''outputTexelsInLogicalRow'' (valuesPerRowOf (shape output))) @
        [Uniform1i ol I_NaN]"
      by (simp add: standardCalls_def outputCalls_def)
    with p have "snd (runProgram ext gpgpu binary inputs output customSetup) =
        gpgpu @
        ([bindCall otd, SetProgram (webGLProgram binary)] @ specialCalls ext binary @
         snd (uploadInputs ext binary 0 inputs []) @
         calls1iv binary ''outputShape'' (shape output) @
         calls1iv binary ''outputStrides'' (computeStrides ext (shape output)) @
         calls1iv binary ''outputTexShape'' (arr (texShape otd)) @
         calls1iv binary ''outputPackedTexShape'' (packedTexShapeOf (texShape otd)) @
         calls1i binary ''outputTexelsInLogicalRow'' (valuesPerRowOf (shape output))) @
        [Uniform1i ol I_NaN] @ post"
      by simp
    then show "\<exists>pre post. snd (runProgram ext gpgpu binary inputs output customSetup) =
         gpgpu @ pre @ [Uniform1i ol I_NaN] @ post" by blast
  }
qed

theorem texels_in_batch_rank_one_witness:
  "length [4::int] = 1 \<and> idx [4::int] (int (length [4::int]) - 2) = None \<and>
   texelsInBatchOf [4] = I_NaN \<and>
   \<not> isUniform operandRow \<and> texData operandRow = Some texA \<and>
   uniformLocations binaryRow (varNameAt binaryRow 0) = Some 10 \<and>
   uniformLocations binaryRow (''texelsInBatch'' @ varNameAt binaryRow 0) = Some 13 \<and>
   length (shaderShape ext1 binaryRow operandRow) = 1 \<and>
   (\<exists>pre post. uploadInput ext1 binaryRow operandRow 0 [] =
       (None, pre @ [Uniform1i 13 I_NaN] @ post)) \<and>
   fst (runProgram ext1 [] binaryRow [operandRow] outputRow None) = None \<and>
   length (shape outputRow) = 1 \<and>
   uniformLocations binaryRow ''outputTexelsInBatch'' = Some 15 \<and>
   (\<exists>pre post. snd (runProgram ext1 [] binaryRow [operandRow] outputRow None) =
       pre @ [Uniform1i 15 I_NaN] @ post)"
proof -
  have s: "length [4::int] = 1" by simp
  have i: "\<not> isUniform operandRow \<and> texData operandRow = Some texA \<and>
      uniformLocations binaryRow (varNameAt binaryRow 0) = Some 10 \<and>
      uniformLocations binaryRow (''texelsInBatch'' @ varNameAt binaryRow 0) = Some 13 \<and>
      length (shaderShape ext1 binaryRow operandRow) = 1"
    by (simp add: sample_defs varNameAt_def templ_def idx_def shaderShape_def squeezeShape_def)
  have o: "fst (runProgram ext1 [] binaryRow [operandRow] outputRow None) = None \<and>
      length (shape outputRow) = 1 \<and>
      uniformLocations binaryRow ''outputTexelsInBatch'' = Some 15"
    by (simp add: sample_defs run_defs)
  note t = texels_in_batch_rank_one [of "[4]" operandRow texA binaryRow 0 10 13 ext1 "[]"
      "[operandRow]" outputRow None 15]
  from t s have 0: "idx [4::int] (int (length [4::int]) - 2) = None \<and> texelsInBatchOf [4] = I_NaN"
    by blast
  from t i have 1: "\<exists>pre post. uploadInput ext1 binaryRow operandRow 0 [] =
       (None, pre @ [Uniform1i 13 I_NaN] @ post)" by simp
  from t o have 2: "\<exists>pre post. snd (runProgram ext1 [] binaryRow [operandRow] outputRow None) =
       pre @ [Uniform1i 15 I_NaN] @ post" by simp
  from s 0 i o 1 2 show ?thesis by simp
qed

section \<open>Special uniforms\<close>

lemma recordUniformLocations_calls:
  "snd (recordUniformLocations ext g p locs st ns) = g @ map (\<lambda>n. GetUniformLocation p n st) ns"
  by (induction ns arbitrary: g locs) (simp_all add: Let_def issue_def)

lemma userUniforms_calls:
  "snd (userUniforms ext g p locs vs) =
     g @ map (\<lambda>n. GetUniformLocation p n False) (concat (map (\<lambda>v. [v, ''offset'' @ v]) vs))"
  by (induction vs arbitrary: g locs) (simp_all add: Let_def issue_def)

lemma inputShapeUniforms_calls:
  "snd (inputShapeUniforms ext g p locs infos) =
     g @ map (\<lambda>n. GetUniformLocation p n False)
           (concat (map (\<lambda>info. if logicalShape (shapeInfo info) \<noteq> []
                          then shapeUniformNames (templ (name info)) else []) infos))"
proof (induction infos arbitrary: g locs)
  case Nil
  then show ?case by simp
next
  case (Cons info infos)
  show ?case
  proof (cases "logicalShape (shapeInfo info) = []")
    case True
    then show ?thesis using Cons.IH [of g locs] by simp
  next
    case False
    let ?r = "recordUniformLocations ext g p locs False (shapeUniformNames (templ (name info)))"
    have "inputShapeUniforms ext g p locs (info # infos) =
        inputShapeUniforms ext (snd ?r) p (fst ?r) infos"
      using False by (simp add: shapeUniformNames_def Let_def del: recordUniformLocations.simps)
    then show ?thesis
      using False Cons.IH [of "snd ?r" "fst ?r"]
      by (simp add: recordUniformLocations_calls del: recordUniformLocations.simps)
  qed
qed

lemma compileProgram_calls:
  assumes "assembleProgramSource ext prog ins out = Inr a"
    and "createProgram ext (asm_source a) = Some p"
  shows "\<exists>bin. compileProgram ext g prog ins out =
      (Inr bin,
       g @ CreateProgram (asm_source a) #
           map (\<lambda>n. GetUniformLocation p n False)
             (''NAN'' # (if WEBGL_VERSION ext = 1 then [''INFINITY''] else []) @
              layoutNames prog (inputInfos a) (asm_outShapeInfo a))) \<and>
      nanLoc bin = getUniformLocation ext p ''NAN'' \<and>
      infLoc bin = (if WEBGL_VERSION ext = 1 then getUniformLocation ext p ''INFINITY'' else None)"
  using assms
  by (simp add: compileProgram_def Let_def issue_def userUniforms_calls inputShapeUniforms_calls
      recordUniformLocations_calls layoutNames_def outputUniformNames_def
      del: recordUniformLocations.simps)

text \<open>
  A successful run of a binary whose \<open>NaN\<close> location is not resolved uploads no
  \<open>NaN\<close>.
\<close>

theorem special_uniforms_nan_unresolved_counterexample:
  "runProgram ext1 [] (binaryA \<lparr> nanLoc := None \<rparr>) [operandA] operandA None =
     (None, [SetOutputMatrixTexture 7 3 5, SetProgram 1, Uniform1f 2 F_Infinity,
             Uniform1iv 12 [2, 3], Uniform1i 13 (I 3), SetInputMatrixTexture 7 10 0,
             Uniform1iv 14 [2, 3], Uniform1i 15 (I 3), ExecuteProgram])"
  by (simp add: sample_defs run_defs)

text \<open>
  C7 (as amended). A successful compilation queries the location of \<open>NAN\<close> first and
  that of \<open>INFINITY\<close> next exactly when \<open>WEBGL_VERSION\<close> is 1; otherwise
  \<open>infLoc\<close> is \<open>null\<close>. The special-uniform block of a run uploads \<open>Infinity\<close>
  exactly when the version is 1 and \<open>infLoc\<close> is resolved, and \<open>NaN\<close> exactly when
  \<open>nanLoc\<close> is resolved; every run that passes validation executes it right after
  the program is activated.
\<close>

theorem special_uniforms:
  "(assembleProgramSource ext prog inputs output = Inr a \<and>
    createProgram ext (asm_source a) = Some p \<longrightarrow>
      (\<exists>bin. compileProgram ext gpgpu prog inputs output =
         (Inr bin,
          gpgpu @ CreateProgram (asm_source a) #
            map (\<lambda>n. GetUniformLocation p n False)
              (''NAN'' # (if WEBGL_VERSION ext = 1 then [''INFINITY''] else []) @
               layoutNames prog (inputInfos a) (asm_outShapeInfo a))) \<and>
         nanLoc bin = getUniformLocation ext p ''NAN'' \<and>
         infLoc bin = (if WEBGL_VERSION ext = 1 then getUniformLocation ext p ''INFINITY''
                       else None))) \<and>
   setSpecialUniforms ext binary g =
     g @ (if WEBGL_VERSION ext = 1
          then (case infLoc binary of None \<Rightarrow> [] | Some l \<Rightarrow> [Uniform1f l F_Infinity])
          else []) @
         (case nanLoc binary of None \<Rightarrow> [] | Some l \<Rightarrow> [Uniform1f l F_NaN]) \<and>
   (validateBinaryAndProgram (inShapeInfos binary) inputs = None \<and>
    validateBinaryAndProgram [outShapeInfo binary] [output] = None \<and>
    texData output = Some td \<longrightarrow>
      (\<exists>post. snd (runProgram ext gpgpu binary inputs output customSetup) =
         setSpecialUniforms ext binary (gpgpu @ [bindCall td, SetProgram (webGLProgram binary)])
         @ post))"
proof (intro conjI impI)
  assume "assembleProgramSource ext prog inputs output = Inr a \<and>
    createProgram ext (asm_source a) = Some p"
  then show "\<exists>bin. compileProgram ext gpgpu prog inputs output =
         (Inr bin,
          gpgpu @ CreateProgram (asm_source a) #
            map (\<lambda>n. GetUniformLocation p n False)
              (''NAN'' # (if WEBGL_VERSION ext = 1 then [''INFINITY''] else []) @
               layoutNames prog (inputInfos a) (asm_outShapeInfo a))) \<and>
         nanLoc bin = getUniformLocation ext p ''NAN'' \<and>
         infLoc bin = (if WEBGL_VERSION ext = 1 then getUniformLocation ext p ''INFINITY''
                       else None)"
    using compileProgram_calls [of ext prog inputs "output" a p gpgpu] by simp
next
  show "setSpecialUniforms ext binary g =
     g @ (if WEBGL_VERSION ext = 1
          then (case infLoc binary of None \<Rightarrow> [] | Some l \<Rightarrow> [Uniform1f l F_Infinity])
          else []) @
         (case nanLoc binary of None \<Rightarrow> [] | Some l \<Rightarrow> [Uniform1f l F_NaN])"
    by (rule setSpecialUniforms_calls)
next
  assume a: "validateBinaryAndProgram (inShapeInfos binary) inputs = None \<and>
    validateBinaryAndProgram [outShapeInfo binary] [output] = None \<and>
    texData output = Some td"
  then have u: "runProgram ext gpgpu binary inputs output customSetup =
     (case fst (uploadInputs ext binary 0 inputs []) of
        Some e \<Rightarrow> (Some e, gpgpu @ [bindCall td, SetProgram (webGLProgram binary)] @ specialCalls ext binary @
                       snd (uploadInputs ext binary 0 inputs []))
      | None \<Rightarrow>
         (case customSetup of
            None \<Rightarrow> (None, gpgpu @ standardCalls ext binary inputs output td @ [ExecuteProgram])
          | Some h \<Rightarrow>
              (case h (gpgpu @ standardCalls ext binary inputs output td) (webGLProgram binary) of
                 (Some e, cs) \<Rightarrow> (Some e, gpgpu @ standardCalls ext binary inputs output td @ cs)
               | (None, cs) \<Rightarrow> (None, gpgpu @ standardCalls ext binary inputs output td @ cs @ [ExecuteProgram]))))"
    using runProgram_unfold [of binary inputs "output" td ext gpgpu customSetup] by simp
  have s: "setSpecialUniforms ext binary (gpgpu @ [bindCall td, SetProgram (webGLProgram binary)])
      = gpgpu @ [bindCall td, SetProgram (webGLProgram binary)] @ specialCalls ext binary"
    by (simp add: setSpecialUniforms_calls specialCalls_def)
  show "\<exists>post. snd (runProgram ext gpgpu binary inputs output customSetup) =
         setSpecialUniforms ext binary (gpgpu @ [bindCall td, SetProgram (webGLProgram binary)])
         @ post"
    unfolding u s
    by (auto simp: standardCalls_def split: option.splits prod.splits)
qed

theorem special_uniforms_witness:
  "assembleProgramSource ext1 progA [operandA] operandA = Inr asmA \<and>
   createProgram ext1 (asm_source asmA) = Some 1 \<and>
   (\<exists>bin. compileProgram ext1 [] progA [operandA] operandA =
      (Inr bin,
       CreateProgram ''return x;'' #
         map (\<lambda>n. GetUniformLocation 1 n False)
           (''NAN'' # ''INFINITY'' # layoutNames progA (inputInfos asmA) (asm_outShapeInfo asmA))) \<and>
      nanLoc bin = Some 1 \<and> infLoc bin = Some 2) \<and>
   assembleProgramSource (ext1 \<lparr> WEBGL_VERSION := 2 \<rparr>) progA [operandA] operandA = Inr asmA \<and>
   (\<exists>bin. compileProgram (ext1 \<lparr> WEBGL_VERSION := 2 \<rparr>) [] progA [operandA] operandA =
      (Inr bin,
       CreateProgram ''return x;'' #
         map (\<lambda>n. GetUniformLocation 1 n False)
           (''NAN'' # layoutNames progA (inputInfos asmA) (asm_outShapeInfo asmA))) \<and>
      nanLoc bin = Some 1 \<and> infLoc bin = None) \<and>
   validateBinaryAndProgram (inShapeInfos binaryA) [operandA] = None \<and>
   validateBinaryAndProgram [outShapeInfo binaryA] [operandA] = None \<and>
   texData operandA = Some texA \<and>
   (\<exists>post. snd (runProgram ext1 [] binaryA [operandA] operandA None) =
      [SetOutputMatrixTexture 7 3 5, SetProgram 1, Uniform1f 2 F_Infinity, Uniform1f 1 F_NaN]
      @ post) \<and>
   (\<exists>post. snd (runProgram (ext1 \<lparr> WEBGL_VERSION := 2 \<rparr>) [] binaryA [operandA] operandA None) =
      [SetOutputMatrixTexture 7 3 5, SetProgram 1, Uniform1f 1 F_NaN] @ post)"
proof -
  let ?e2 = "ext1 \<lparr> WEBGL_VERSION := 2 \<rparr>"
  have asm: "assembleProgramSource ext1 progA [operandA] operandA = Inr asmA"
    "assembleProgramSource ?e2 progA [operandA] operandA = Inr asmA"
    by (simp_all add: assembleProgramSource_def inputInfoOf_def idx_def Let_def sample_defs asmA_def)
  have cp: "createProgram ext1 (asm_source asmA) = Some 1"
    "createProgram ?e2 (asm_source asmA) = Some 1"
    by (simp_all add: ext1_def)
  have v: "validateBinaryAndProgram (inShapeInfos binaryA) [operandA] = None"
    "validateBinaryAndProgram [outShapeInfo binaryA] [operandA] = None"
    "texData operandA = Some texA"
    by (simp_all add: validateBinaryAndProgram_def validateOperand_def texShapeOf_def arr_def
        Let_def sample_defs)
  note t1 = special_uniforms [of ext1 progA "[operandA]" operandA asmA 1 "[]" binaryA
      "[SetOutputMatrixTexture 7 3 5, SetProgram 1]" texA None]
  note t2 = special_uniforms [of ?e2 progA "[operandA]" operandA asmA 1 "[]" binaryA
      "[SetOutputMatrixTexture 7 3 5, SetProgram 1]" texA None]
  have b: "[bindCall texA, SetProgram (webGLProgram binaryA)]
      = [SetOutputMatrixTexture 7 3 5, SetProgram 1]"
    by (simp add: bindCall_def sample_defs)
  from t1 asm cp have c1: "\<exists>bin. compileProgram ext1 [] progA [operandA] operandA =
      (Inr bin,
       CreateProgram ''return x;'' #
         map (\<lambda>n. GetUniformLocation 1 n False)
           (''NAN'' # ''INFINITY'' # layoutNames progA (inputInfos asmA) (asm_outShapeInfo asmA))) \<and>
      nanLoc bin = Some 1 \<and> infLoc bin = Some 2"
    by (simp add: ext1_def asmA_def)
  from t2 asm cp have c2: "\<exists>bin. compileProgram ?e2 [] progA [operandA] operandA =
      (Inr bin,
       CreateProgram ''return x;'' #
         map (\<lambda>n. GetUniformLocation 1 n False)
           (''NAN'' # layoutNames progA (inputInfos asmA) (asm_outShapeInfo asmA))) \<and>
      nanLoc bin = Some 1 \<and> infLoc bin = None"
    by (simp add: ext1_def asmA_def)
  from t1 have s1: "setSpecialUniforms ext1 binaryA [SetOutputMatrixTexture 7 3 5, SetProgram 1]
      = [SetOutputMatrixTexture 7 3 5, SetProgram 1, Uniform1f 2 F_Infinity, Uniform1f 1 F_NaN]"
    by (simp add: ext1_def binaryA_def)
  from t2 have s2: "setSpecialUniforms ?e2 binaryA [SetOutputMatrixTexture 7 3 5, SetProgram 1]
      = [SetOutputMatrixTexture 7 3 5, SetProgram 1, Uniform1f 1 F_NaN]"
    by (simp add: ext1_def binaryA_def)
  from t1 v have "\<exists>post. snd (runProgram ext1 [] binaryA [operandA] operandA None) =
      setSpecialUniforms ext1 binaryA ([] @ [bindCall texA, SetProgram (webGLProgram binaryA)]) @ post"
    by blast
  then have r1: "\<exists>post. snd (runProgram ext1 [] binaryA [operandA] operandA None) =
      [SetOutputMatrixTexture 7 3 5, SetProgram 1, Uniform1f 2 F_Infinity, Uniform1f 1 F_NaN]
      @ post"
    by (simp only: append_Nil b s1)
  from t2 v have "\<exists>post. snd (runProgram ?e2 [] binaryA [operandA] operandA None) =
      setSpecialUniforms ?e2 binaryA ([] @ [bindCall texA, SetProgram (webGLProgram binaryA)]) @ post"
    by blast
  then have r2: "\<exists>post. snd (runProgram ?e2 [] binaryA [operandA] operandA None) =
      [SetOutputMatrixTexture 7 3 5, SetProgram 1, Uniform1f 1 F_NaN] @ post"
    by (simp only: append_Nil b s2)
  from asm cp c1 c2 v r1 r2 show ?thesis by blast
qed

section \<open>The shader key\<close>

lemma digitChar_inj: "d < 10 \<Longrightarrow> d' < 10 \<Longrightarrow> digitChar d = digitChar d' \<Longrightarrow> d = d'"
proof -
  assume a: "d < 10" "d' < 10" "digitChar d = digitChar d'"
  have "distinct ''0123456789''" by simp
  moreover from a have "d < length ''0123456789''" "d' < length ''0123456789''" by simp_all
  ultimately show "d = d'" using a(3) unfolding digitChar_def
    by (simp only: nth_eq_iff_index_eq)
qed

lemma digitChar_set: "d < 10 \<Longrightarrow> digitChar d \<in> digitChars"
  unfolding digitChar_def digitChars_def by (rule nth_mem) simp

lemma not_digit:
  "CHR ''-'' \<notin> digitChars" "CHR '','' \<notin> digitChars" "CHR ''_'' \<notin> digitChars"
  "CHR ''u'' \<notin> digitChars"
  by (simp_all add: digitChars_def)

lemma showNat_set: "set (showNat n) \<subseteq> digitChars"
proof (induction n rule: showNat.induct)
  case (1 n)
  show ?case
  proof (cases "n < 10")
    case True
    then show ?thesis using digitChar_set [of n] by (subst showNat.simps) simp
  next
    case False
    have "n mod 10 < 10" by simp
    then have "digitChar (n mod 10) \<in> digitChars" by (rule digitChar_set)
    with False 1 show ?thesis by (subst showNat.simps) simp
  qed
qed

lemma showNat_nonempty: "showNat n \<noteq> []"
  by (subst showNat.simps) simp

lemma showNat_inj: "showNat n = showNat m \<Longrightarrow> n = m"
proof (induction n arbitrary: m rule: showNat.induct)
  case (1 n)
  show ?case
  proof (cases "n < 10")
    case n: True
    show ?thesis
    proof (cases "m < 10")
      case True
      with n 1(2) have "digitChar n = digitChar m"
        by (simp add: showNat.simps [of n] showNat.simps [of m])
      with n True show ?thesis by (rule digitChar_inj)
    next
      case False
      with n 1(2) have "[digitChar n] = showNat (m div 10) @ [digitChar (m mod 10)]"
        by (simp add: showNat.simps [of n] showNat.simps [of m])
      then have "showNat (m div 10) = []" by simp
      then show ?thesis by (simp add: showNat_nonempty)
    qed
  next
    case n: False
    show ?thesis
    proof (cases "m < 10")
      case True
      with n 1(2) have "showNat (n div 10) @ [digitChar (n mod 10)] = [digitChar m]"
        by (simp add: showNat.simps [of n] showNat.simps [of m])
      then have "showNat (n div 10) = []" by simp
      then show ?thesis by (simp add: showNat_nonempty)
    next
      case False
      with n 1(2) have "showNat (n div 10) @ [digitChar (n mod 10)]
          = showNat (m div 10) @ [digitChar (m mod 10)]"
        by (simp add: showNat.simps [of n] showNat.simps [of m])
      then have a: "showNat (n div 10) = showNat (m div 10)"
        and b: "digitChar (n mod 10) = digitChar (m mod 10)" by simp_all
      from 1(1) [OF n a] have d: "n div 10 = m div 10" .
      have "n mod 10 < 10" "m mod 10 < 10" by simp_all
      with b have "n mod 10 = m mod 10" by (rule digitChar_inj [rotated 2])
      with d show ?thesis by (metis div_mult_mod_eq)
    qed
  qed
qed

lemma showInt_set: "set (showInt i) \<subseteq> insert (CHR ''-'') digitChars"
  using showNat_set [of "nat (- i)"] showNat_set [of "nat i"]
  by (cases "i < 0") (auto simp: showInt_def)

lemma showInt_nonempty: "showInt i \<noteq> []"
  by (simp add: showInt_def showNat_nonempty)

lemma showInt_inj: "showInt i = showInt j \<Longrightarrow> i = j"
proof -
  assume a: "showInt i = showInt j"
  have nodash: "CHR ''-'' \<notin> set (showNat n)" for n
    using showNat_set [of n] not_digit(1) by blast
  have hd: "hd (showNat n) \<noteq> CHR ''-''" for n
    using nodash [of n] showNat_nonempty [of n] by (cases "showNat n") auto
  show ?thesis
  proof (cases "i < 0")
    case i: True
    show ?thesis
    proof (cases "j < 0")
      case True
      with i a have "showNat (nat (- i)) = showNat (nat (- j))" by (simp add: showInt_def)
      then have "nat (- i) = nat (- j)" by (rule showNat_inj)
      with i True show ?thesis by simp
    next
      case False
      with i a have "CHR ''-'' # showNat (nat (- i)) = showNat (nat j)" by (simp add: showInt_def)
      then have "hd (showNat (nat j)) = CHR ''-''" by (metis list.sel(1))
      with hd show ?thesis by simp
    qed
  next
    case i: False
    show ?thesis
    proof (cases "j < 0")
      case True
      with i a have "showNat (nat i) = CHR ''-'' # showNat (nat (- j))" by (simp add: showInt_def)
      then have "hd (showNat (nat i)) = CHR ''-''" by (metis list.sel(1))
      with hd show ?thesis by simp
    next
      case False
      with i a have "showNat (nat i) = showNat (nat j)" by (simp add: showInt_def)
      then have "nat i = nat j" by (rule showNat_inj)
      with i False show ?thesis by simp
    qed
  qed
qed

lemma sep_split:
  "c \<notin> set a \<Longrightarrow> c \<notin> set a' \<Longrightarrow> a @ c # r = a' @ c # r' \<Longrightarrow> a = a' \<and> r = r'"
proof (induction a arbitrary: a')
  case Nil
  then show ?case by (cases a') auto
next
  case (Cons x a)
  then show ?case by (cases a') auto
qed

lemma showInt_no_comma: "CHR '','' \<notin> set (showInt z)"
proof
  assume "CHR '','' \<in> set (showInt z)"
  with showInt_set [of z] have "CHR '','' \<in> insert (CHR ''-'') digitChars" by blast
  with not_digit(2) show False by simp
qed

lemma showArray_set:
  "set (showArray s) \<subseteq> insert (CHR '','') (insert (CHR ''-'') digitChars)"
proof (induction s rule: showArray.induct)
  case 1
  then show ?case by simp
next
  case (2 x)
  then show ?case using showInt_set [of x] by auto
next
  case (3 x y ys)
  have "set (showArray (x # y # ys)) =
      set (showInt x) \<union> insert (CHR '','') (set (showArray (y # ys)))" by simp
  with 3 showInt_set [of x] show ?case by blast
qed

lemma showArray_inj: "showArray s = showArray s' \<Longrightarrow> s = s'"
proof (induction s arbitrary: s' rule: showArray.induct)
  case 1
  then show ?case
  proof (cases s' rule: showArray.cases)
    case (2 x)
    with 1 have "showInt x = []" by simp
    then show ?thesis by (simp add: showInt_nonempty)
  next
    case (3 x y ys)
    with 1 show ?thesis by simp
  qed simp
next
  case (2 x)
  note nocomma = showInt_no_comma
  show ?case
  proof (cases s' rule: showArray.cases)
    case 1
    with 2 show ?thesis using showInt_nonempty [of x] by simp
  next
    case (2 x')
    with \<open>showArray [x] = showArray s'\<close> show ?thesis by (simp add: showInt_inj)
  next
    case (3 x' y' ys')
    with \<open>showArray [x] = showArray s'\<close>
    have "showInt x = showInt x' @ CHR '','' # showArray (y' # ys')" by simp
    then have "CHR '','' \<in> set (showInt x)" by simp
    with nocomma show ?thesis by simp
  qed
next
  case (3 x y ys)
  note nocomma = showInt_no_comma
  show ?case
  proof (cases s' rule: showArray.cases)
    case 1
    with 3(2) show ?thesis by simp
  next
    case (2 x')
    with 3(2) have "showInt x' = showInt x @ CHR '','' # showArray (y # ys)" by simp
    then have "CHR '','' \<in> set (showInt x')" by simp
    with nocomma show ?thesis by simp
  next
    case c: (3 x' y' ys')
    with 3(2) have "showInt x @ CHR '','' # showArray (y # ys)
        = showInt x' @ CHR '','' # showArray (y' # ys')" by simp
    with nocomma have "showInt x = showInt x'" and r: "showArray (y # ys) = showArray (y' # ys')"
      using sep_split [of "CHR '',''" "showInt x" "showInt x'"] by blast+
    from 3(1) [OF r] \<open>showInt x = showInt x'\<close> c show ?thesis by (simp add: showInt_inj)
  qed
qed

lemma showArray_no_sep: "CHR ''_'' \<notin> set (showArray s)"
proof
  assume "CHR ''_'' \<in> set (showArray s)"
  with showArray_set [of s]
  have "CHR ''_'' \<in> insert (CHR '','') (insert (CHR ''-'') digitChars)" by blast
  with not_digit(3) show False by simp
qed

lemma texKey_no_sep:
  "CHR ''_'' \<notin> set (case t of None \<Rightarrow> ''uniform'' | Some t' \<Rightarrow> showArray (arr t'))"
  by (cases t) (simp_all add: showArray_no_sep)

lemma texKey_inj:
  assumes "(case t of None \<Rightarrow> ''uniform'' | Some t' \<Rightarrow> showArray (arr t'))
         = (case u of None \<Rightarrow> ''uniform'' | Some u' \<Rightarrow> showArray (arr u'))"
  shows "t = u"
proof -
  have nu: "showArray (arr z) \<noteq> ''uniform''" for z
  proof
    assume "showArray (arr z) = ''uniform''"
    then have "CHR ''u'' \<in> set (showArray (arr z))" by simp
    with showArray_set [of "arr z"]
    have "CHR ''u'' \<in> insert (CHR '','') (insert (CHR ''-'') digitChars)" by blast
    with not_digit(4) show False by simp
  qed
  show ?thesis
  proof (cases t)
    case None
    show ?thesis
    proof (cases u)
      case u: (Some u')
      with None assms have "showArray (arr u') = ''uniform''" by simp
      with nu show ?thesis by simp
    qed (simp add: None)
  next
    case (Some t')
    show ?thesis
    proof (cases u)
      case None
      with Some assms nu show ?thesis by auto
    next
      case u: (Some u')
      with Some assms have "showArray (arr t') = showArray (arr u')" by simp
      then have "arr t' = arr u'" by (rule showArray_inj)
      with Some u show ?thesis by (simp add: arr_inject)
    qed
  qed
qed

lemma showBool_split: "showBool b @ r = showBool b' @ r' \<Longrightarrow> b = b' \<and> r = r'"
  by (cases b; cases b') (simp_all add: showBool_def)

lemma enc_split:
  assumes "enc l @ r = enc l' @ r'"
  shows "l = l' \<and> r = r'"
proof -
  obtain s t b where l: "l = (s, t, b)" by (cases l)
  obtain s' t' b' where l': "l' = (s', t', b')" by (cases l')
  let ?T = "\<lambda>t. (case t of None \<Rightarrow> ''uniform'' | Some t' \<Rightarrow> showArray (arr t'))"
  from assms l l' have "showArray s @ CHR ''_'' # (?T t @ CHR ''_'' # showBool b @ r)
      = showArray s' @ CHR ''_'' # (?T t' @ CHR ''_'' # showBool b' @ r')"
    by (simp add: enc_def)
  from sep_split [OF showArray_no_sep showArray_no_sep this]
  have 1: "showArray s = showArray s'"
    and 2: "?T t @ CHR ''_'' # showBool b @ r = ?T t' @ CHR ''_'' # showBool b' @ r'" by simp_all
  from sep_split [OF texKey_no_sep texKey_no_sep 2]
  have 3: "?T t = ?T t'" and 4: "showBool b @ r = showBool b' @ r'" by simp_all
  from 1 have "s = s'" by (rule showArray_inj)
  moreover from 3 have "t = t'" by (rule texKey_inj)
  moreover from 4 have "b = b' \<and> r = r'" by (rule showBool_split)
  ultimately show ?thesis using l l' by simp
qed

lemma enc_nonempty: "enc l \<noteq> []"
  by (cases l) (simp add: enc_def)

lemma enc_concat_inj: "concat (map enc ls) = concat (map enc ls') \<Longrightarrow> ls = ls'"
proof (induction ls arbitrary: ls')
  case Nil
  then show ?case using enc_nonempty by (cases ls') auto
next
  case (Cons l ls)
  show ?case
  proof (cases ls')
    case Nil
    with Cons.prems show ?thesis using enc_nonempty [of l] by simp
  next
    case c: (Cons l' ls'')
    with Cons.prems have "enc l @ concat (map enc ls) = enc l' @ concat (map enc ls'')" by simp
    then have "l = l'" and "concat (map enc ls) = concat (map enc ls'')"
      using enc_split by blast+
    with Cons.IH [of ls''] c show ?thesis by simp
  qed
qed

lemma operandKey_enc: "operandKey x = Inr s \<Longrightarrow> s = enc (keyFields x)"
  by (auto simp: operandKey_def enc_def keyFields_def split: if_splits option.splits)

lemma keyInputsOf_enc:
  "keyInputsOf acc xs = Inr k \<Longrightarrow> k = acc @ concat (map enc (map keyFields xs))"
proof (induction xs arbitrary: acc)
  case Nil
  then show ?case by simp
next
  case (Cons x xs)
  then obtain s where s: "operandKey x = Inr s" and r: "keyInputsOf (acc @ s) xs = Inr k"
    by (auto split: sum.splits)
  from Cons.IH [OF r] operandKey_enc [OF s] show ?case by simp
qed

lemma makeShaderKey_enc:
  assumes "makeShaderKey prog ins out = Inr k"
  shows "k = constructorName prog @ ''_'' @ concat (map enc (map keyFields (ins @ [out])))
             @ ''_'' @ userCode prog"
proof -
  from assms obtain ki where ki: "keyInputsOf [] (ins @ [out]) = Inr ki"
    and k: "k = constructorName prog @ ''_'' @ ki @ ''_'' @ userCode prog"
    by (auto simp: makeShaderKey_def split: sum.splits)
  from keyInputsOf_enc [OF ki] k show ?thesis by simp
qed

lemmas key_defs = makeShaderKey_def operandKey_def hasOffset_def showBool_def showInt_def
  showNat.simps digitChar_def arr_def

lemma keyFields_layoutOf: "offsetValid x \<Longrightarrow> keyFields x = layoutOf x"
  by (auto simp: keyFields_def layoutOf_def hasOffset_def carriesOffset_def offsetValid_def
      split: option.splits)

lemma map_keyFields_layoutOf: "list_all offsetValid xs \<Longrightarrow> map keyFields xs = map layoutOf xs"
  by (induction xs) (simp_all add: keyFields_layoutOf)

text \<open>
  C2. For one program and operands whose slice offsets are not negative, two calls of
  \<open>makeShaderKey\<close> that return keys return the same key exactly when the operands
  (inputs, then output) have the same logical shapes, the same physical texture shapes or
  uniform storage, and the same presence of a nonzero slice offset. In particular identical
  calls give identical keys, and a difference in any of those fields gives different keys.
\<close>

theorem makeShaderKey_layouts:
  assumes "makeShaderKey prog inputs output = Inr k"
    and "makeShaderKey prog inputs' output' = Inr k'"
    and "list_all offsetValid (inputs @ [output])"
    and "list_all offsetValid (inputs' @ [output'])"
  shows "k = k' \<longleftrightarrow> map layoutOf (inputs @ [output]) = map layoutOf (inputs' @ [output'])"
proof -
  note m = map_keyFields_layoutOf [OF assms(3)]
  note m' = map_keyFields_layoutOf [OF assms(4)]
  have e: "k = constructorName prog @ ''_'' @ concat (map enc (map layoutOf (inputs @ [output])))
             @ ''_'' @ userCode prog"
    using makeShaderKey_enc [OF assms(1)] by (simp only: m)
  have e': "k' = constructorName prog @ ''_'' @ concat (map enc (map layoutOf (inputs' @ [output'])))
             @ ''_'' @ userCode prog"
    using makeShaderKey_enc [OF assms(2)] by (simp only: m')
  show ?thesis
  proof
    assume "k = k'"
    with e e' have "concat (map enc (map layoutOf (inputs @ [output])))
        = concat (map enc (map layoutOf (inputs' @ [output'])))"
      by simp
    then show "map layoutOf (inputs @ [output]) = map layoutOf (inputs' @ [output'])"
      by (rule enc_concat_inj)
  next
    assume eq: "map layoutOf (inputs @ [output]) = map layoutOf (inputs' @ [output'])"
    from e have "k = constructorName prog @ ''_'' @
        concat (map enc (map layoutOf (inputs' @ [output']))) @ ''_'' @ userCode prog"
      by (simp only: eq)
    also from e' have "\<dots> = k'" by (rule sym)
    finally show "k = k'" .
  qed
qed

theorem makeShaderKey_layouts_witness:
  "makeShaderKey progA [operandA] operandA =
     Inr ''UnaryOpProgram_2,6_3,5_false2,6_3,5_false_return x;'' \<and>
   makeShaderKey progA [opS4] operandA =
     Inr ''UnaryOpProgram_2,6_3,5_true2,6_3,5_false_return x;'' \<and>
   makeShaderKey progA [opS8] operandA =
     Inr ''UnaryOpProgram_2,6_3,5_true2,6_3,5_false_return x;'' \<and>
   makeShaderKey progA [operandT] operandA =
     Inr ''UnaryOpProgram_2,6_5,3_false2,6_3,5_false_return x;'' \<and>
   makeShaderKey progA [operandU] operandA =
     Inr ''UnaryOpProgram_2,6_uniform_false2,6_3,5_false_return x;'' \<and>
   makeShaderKey progA [operandRow] operandA =
     Inr ''UnaryOpProgram_1,4_3,5_false2,6_3,5_false_return x;'' \<and>
   list_all offsetValid [operandA, opS4, opS8, operandT, operandU, operandRow, opZero] \<and>
   carriesOffset opS4 \<and> carriesOffset opS8 \<and> \<not> carriesOffset operandA \<and>
   \<not> carriesOffset opZero \<and>
   map layoutOf ([operandA] @ [operandA]) \<noteq> map layoutOf ([opS4] @ [operandA]) \<and>
   ''UnaryOpProgram_2,6_3,5_false2,6_3,5_false_return x;'' \<noteq>
   ''UnaryOpProgram_2,6_3,5_true2,6_3,5_false_return x;'' \<and>
   map layoutOf ([operandA] @ [operandA]) \<noteq> map layoutOf ([operandT] @ [operandA]) \<and>
   ''UnaryOpProgram_2,6_3,5_false2,6_3,5_false_return x;'' \<noteq>
   ''UnaryOpProgram_2,6_5,3_false2,6_3,5_false_return x;'' \<and>
   map layoutOf ([operandA] @ [operandA]) \<noteq> map layoutOf ([operandU] @ [operandA]) \<and>
   ''UnaryOpProgram_2,6_3,5_false2,6_3,5_false_return x;'' \<noteq>
   ''UnaryOpProgram_2,6_uniform_false2,6_3,5_false_return x;'' \<and>
   map layoutOf ([operandA] @ [operandA]) \<noteq> map layoutOf ([operandRow] @ [operandA]) \<and>
   ''UnaryOpProgram_2,6_3,5_false2,6_3,5_false_return x;'' \<noteq>
   ''UnaryOpProgram_1,4_3,5_false2,6_3,5_false_return x;'' \<and>
   map layoutOf ([opS4] @ [operandA]) = map layoutOf ([opS8] @ [operandA]) \<and>
   map layoutOf ([operandA] @ [operandA]) = map layoutOf ([opZero] @ [operandA]) \<and>
   makeShaderKey progA [opZero] operandA =
     Inr ''UnaryOpProgram_2,6_3,5_false2,6_3,5_false_return x;''"
proof -
  let ?ka = "''UnaryOpProgram_2,6_3,5_false2,6_3,5_false_return x;''"
  have a: "makeShaderKey progA [operandA] operandA = Inr ?ka"
    by (simp add: key_defs sample_defs)
  have s4: "makeShaderKey progA [opS4] operandA =
     Inr ''UnaryOpProgram_2,6_3,5_true2,6_3,5_false_return x;''"
    by (simp add: key_defs sample_defs)
  have s8: "makeShaderKey progA [opS8] operandA =
     Inr ''UnaryOpProgram_2,6_3,5_true2,6_3,5_false_return x;''"
    by (simp add: key_defs sample_defs)
  have t: "makeShaderKey progA [operandT] operandA =
     Inr ''UnaryOpProgram_2,6_5,3_false2,6_3,5_false_return x;''"
    by (simp add: key_defs sample_defs)
  have u: "makeShaderKey progA [operandU] operandA =
     Inr ''UnaryOpProgram_2,6_uniform_false2,6_3,5_false_return x;''"
    by (simp add: key_defs sample_defs)
  have row: "makeShaderKey progA [operandRow] operandA =
     Inr ''UnaryOpProgram_1,4_3,5_false2,6_3,5_false_return x;''"
    by (simp add: key_defs sample_defs)
  have "\<exists>k. makeShaderKey progA [opZero] operandA = Inr k"
    by (simp add: key_defs sample_defs)
  then obtain kz where z: "makeShaderKey progA [opZero] operandA = Inr kz" ..
  have v: "list_all offsetValid [operandA, opS4, opS8, operandT, operandU, operandRow, opZero]"
    by (simp add: offsetValid_def sample_defs)
  then have va: "list_all offsetValid ([operandA] @ [operandA])"
    and vs4: "list_all offsetValid ([opS4] @ [operandA])"
    and vs8: "list_all offsetValid ([opS8] @ [operandA])"
    and vt: "list_all offsetValid ([operandT] @ [operandA])"
    and vu: "list_all offsetValid ([operandU] @ [operandA])"
    and vr: "list_all offsetValid ([operandRow] @ [operandA])"
    and vz: "list_all offsetValid ([opZero] @ [operandA])"
    by simp_all
  have c: "carriesOffset opS4" "carriesOffset opS8" "\<not> carriesOffset operandA"
    "\<not> carriesOffset opZero"
    by (simp_all add: carriesOffset_def sample_defs)
  have l: "map layoutOf ([operandA] @ [operandA]) \<noteq> map layoutOf ([opS4] @ [operandA])"
    "map layoutOf ([operandA] @ [operandA]) \<noteq> map layoutOf ([operandT] @ [operandA])"
    "map layoutOf ([operandA] @ [operandA]) \<noteq> map layoutOf ([operandU] @ [operandA])"
    "map layoutOf ([operandA] @ [operandA]) \<noteq> map layoutOf ([operandRow] @ [operandA])"
    "map layoutOf ([opS4] @ [operandA]) = map layoutOf ([opS8] @ [operandA])"
    "map layoutOf ([operandA] @ [operandA]) = map layoutOf ([opZero] @ [operandA])"
    by (simp_all add: layoutOf_def carriesOffset_def sample_defs)
  from makeShaderKey_layouts [OF a s4 va vs4] l(1)
  have 1: "?ka \<noteq> ''UnaryOpProgram_2,6_3,5_true2,6_3,5_false_return x;''" by blast
  from makeShaderKey_layouts [OF a t va vt] l(2)
  have 2: "?ka \<noteq> ''UnaryOpProgram_2,6_5,3_false2,6_3,5_false_return x;''" by blast
  from makeShaderKey_layouts [OF a u va vu] l(3)
  have 3: "?ka \<noteq> ''UnaryOpProgram_2,6_uniform_false2,6_3,5_false_return x;''" by blast
  from makeShaderKey_layouts [OF a row va vr] l(4)
  have 4: "?ka \<noteq> ''UnaryOpProgram_1,4_3,5_false2,6_3,5_false_return x;''" by blast
  from makeShaderKey_layouts [OF a z va vz] l(6) have "?ka = kz" by blast
  with z have 5: "makeShaderKey progA [opZero] operandA = Inr ?ka" by simp
  from a s4 s8 t u row v c l 1 2 3 4 5 show ?thesis by blast
qed

end
